theory Spec2Isabelle
  imports Main "HOL-Library.Word"
begin

unbundle bit_operations_syntax

section \<open>The E20 simulator (e20sim.cpp)\<close>

text \<open>
  The simulator keeps its program counter, its eight registers and its 8192 memory cells in
  variables of the C++ type \<^verbatim>\<open>unsigned\<close>, a 32-bit integer whose arithmetic wraps
  around.  It is modelled by \<open>32 word\<close>.  The two arrays are lists; an index outside an
  array (undefined behaviour in C++) is an error value of the model, so that a theorem saying
  that a cycle returns \<open>Inr\<close> also says that every array access was inside its array.
\<close>

type_synonym unsigned = "32 word"

definition NUM_REGS :: nat where
  "NUM_REGS = 8"

definition MEM_SIZE :: nat where
  "MEM_SIZE = 2 ^ 13"

datatype error =
    Invalid_line_format string
  | Addresses_out_of_sequence nat
  | Program_too_large nat
  | Uncaught_stoi_exception string
  | Unknown_opcode unsigned unsigned
  | Index_out_of_bounds nat

text \<open>
  The first three errors and \<open>Unknown_opcode\<close> print a message on \<^verbatim>\<open>cerr\<close> and leave
  the process with status 1 (\<^verbatim>\<open>exit(1)\<close>, \<^verbatim>\<open>return EXIT_FAILURE\<close>).  An exception
  thrown by \<^verbatim>\<open>stoi\<close> is caught nowhere, and an index outside an array is undefined: neither
  has an exit status given by the program.
\<close>

fun exit_status :: "error \<Rightarrow> nat option" where
  "exit_status (Invalid_line_format l) = Some 1"
| "exit_status (Addresses_out_of_sequence a) = Some 1"
| "exit_status (Program_too_large a) = Some 1"
| "exit_status (Uncaught_stoi_exception s) = None"
| "exit_status (Unknown_opcode opc at_pc) = Some 1"
| "exit_status (Index_out_of_bounds i) = None"

definition and_then :: "error + 'a \<Rightarrow> ('a \<Rightarrow> error + 'b) \<Rightarrow> error + 'b" where
  "and_then m f = (case m of Inl e \<Rightarrow> Inl e | Inr x \<Rightarrow> f x)"

definition array_get :: "unsigned list \<Rightarrow> nat \<Rightarrow> error + unsigned" where
  "array_get a i = (if i < length a then Inr (a ! i) else Inl (Index_out_of_bounds i))"

definition array_set :: "unsigned list \<Rightarrow> nat \<Rightarrow> unsigned \<Rightarrow> error + unsigned list" where
  "array_set a i v = (if i < length a then Inr (a[i := v]) else Inl (Index_out_of_bounds i))"

subsection \<open>Loading the program image\<close>

text \<open>
  The loader reads the file line by line (\<^verbatim>\<open>getline\<close>); the model takes the list of
  lines.  Each line must match, as a whole, the regular expression
  \<^verbatim>\<open>^ram\[(\d+)\] = 16'b(\d+);.*$\<close>.  Both groups are runs of decimal digits followed by
  a character that is no digit, so the greedy run is the only possible match; the final
  \<^verbatim>\<open>.*\<close> matches any characters but line terminators.
\<close>

definition is_digit :: "char \<Rightarrow> bool" where
  "is_digit c = (c \<in> set ''0123456789'')"

fun strip_prefix :: "string \<Rightarrow> string \<Rightarrow> string option" where
  "strip_prefix [] s = Some s"
| "strip_prefix (p # ps) [] = None"
| "strip_prefix (p # ps) (c # cs) = (if p = c then strip_prefix ps cs else None)"

definition machine_code_re :: "string \<Rightarrow> (string \<times> string) option" where
  "machine_code_re line =
    (case strip_prefix ''ram['' line of
       None \<Rightarrow> None
     | Some r1 \<Rightarrow>
        let sm1 = takeWhile is_digit r1 in
        if sm1 = [] then None
        else
          (case strip_prefix ''] = 16'b'' (dropWhile is_digit r1) of
             None \<Rightarrow> None
           | Some r2 \<Rightarrow>
              let sm2 = takeWhile is_digit r2 in
              if sm2 = [] then None
              else
                (case strip_prefix '';'' (dropWhile is_digit r2) of
                   None \<Rightarrow> None
                 | Some r3 \<Rightarrow>
                    if list_all (\<lambda>c. c \<noteq> CHR 0x0A \<and> c \<noteq> CHR 0x0D) r3
                    then Some (sm1, sm2) else None)))"

text \<open>
  \<^verbatim>\<open>stoi(str, nullptr, base)\<close> on a string that starts with a decimal digit (all the
  loader passes): it converts the longest prefix of digits valid in the base, throws
  \<^verbatim>\<open>std::invalid_argument\<close> when that prefix is empty and \<^verbatim>\<open>std::out_of_range\<close> when the
  value does not fit an \<^verbatim>\<open>int\<close>.  \<open>None\<close> is the exception.
\<close>

definition digit_val :: "char \<Rightarrow> nat" where
  "digit_val c = of_char c - 48"

definition INT_MAX :: nat where
  "INT_MAX = 2 ^ 31 - 1"

definition stoi :: "string \<Rightarrow> nat \<Rightarrow> nat option" where
  "stoi str base =
    (let ds = takeWhile (\<lambda>c. is_digit c \<and> digit_val c < base) str;
         v = foldl (\<lambda>acc c. acc * base + digit_val c) 0 ds
     in if ds = [] then None else if v > INT_MAX then None else Some v)"

fun load_loop :: "string list \<Rightarrow> nat \<Rightarrow> unsigned list \<Rightarrow> error + unsigned list" where
  "load_loop [] expected_addr mem = Inr mem"
| "load_loop (line # f) expected_addr mem =
    (case machine_code_re line of
       None \<Rightarrow> Inl (Invalid_line_format line)
     | Some (sm1, sm2) \<Rightarrow>
        (case stoi sm1 10 of
           None \<Rightarrow> Inl (Uncaught_stoi_exception sm1)
         | Some addr \<Rightarrow>
            (case stoi sm2 2 of
               None \<Rightarrow> Inl (Uncaught_stoi_exception sm2)
             | Some instr \<Rightarrow>
                if addr \<noteq> expected_addr then Inl (Addresses_out_of_sequence addr)
                else if addr \<ge> MEM_SIZE then Inl (Program_too_large addr)
                else and_then (array_set mem addr (of_nat instr))
                       (\<lambda>mem'. load_loop f (expected_addr + 1) mem'))))"

definition load_machine_code :: "string list \<Rightarrow> unsigned list \<Rightarrow> error + unsigned list" where
  "load_machine_code f mem = load_loop f 0 mem"

subsection \<open>Bit fields\<close>

text \<open>
  Every call of \<^verbatim>\<open>extract_bits\<close> passes literal positions with \<open>start \<le> end \<le> 15\<close>, so
  the positions are natural numbers and the shift \<^verbatim>\<open>1 << (end - start + 1)\<close> is by at most
  13 places.
\<close>

definition extract_bits :: "unsigned \<Rightarrow> nat \<Rightarrow> nat \<Rightarrow> unsigned" where
  "extract_bits instruction start end =
    (let mask = push_bit (end - start + 1) 1 - 1
     in drop_bit start instruction AND mask)"

definition sign_extend :: "unsigned \<Rightarrow> unsigned" where
  "sign_extend value =
    (let value' = (if value AND 0x40 \<noteq> 0 then value OR 0xFF80 else value)
     in value' AND 0xFFFF)"

subsection \<open>The simulation loop\<close>

record machine =
  memory :: "unsigned list"
  registers :: "unsigned list"
  pc :: unsigned
  halted :: bool

text \<open>
  The state that \<^verbatim>\<open>main\<close> sets up around a loaded memory: registers and program counter
  zero, not halted.
\<close>

definition initial_machine :: "unsigned list \<Rightarrow> machine" where
  "initial_machine mem =
    \<lparr>memory = mem, registers = replicate NUM_REGS 0, pc = 0, halted = False\<rparr>"

text \<open>
  One definition for each \<^verbatim>\<open>case\<close> of the \<^verbatim>\<open>switch\<close> on the opcode.  Each takes the
  registers, the memory, \<^verbatim>\<open>current_pc\<close> and the instruction, and returns the registers,
  the memory and \<^verbatim>\<open>next_pc\<close> as they are at the \<^verbatim>\<open>break\<close>.
\<close>

type_synonym effect = "error + (unsigned list \<times> unsigned list \<times> unsigned)"

definition exec_ADD :: "unsigned list \<Rightarrow> unsigned list \<Rightarrow> unsigned \<Rightarrow> unsigned \<Rightarrow> effect" where
  "exec_ADD regs mem current_pc instruction =
    (let regA = unat (extract_bits instruction 10 12);
         regB = unat (extract_bits instruction 7 9);
         regDst = unat (extract_bits instruction 4 6);
         last_four_bit = extract_bits instruction 0 3
     in and_then
          (if regDst \<noteq> 0 then
             (if last_four_bit = 0 then
                and_then (array_get regs regA) (\<lambda>a. and_then (array_get regs regB) (\<lambda>b.
                  array_set regs regDst ((a + b) AND 0xFFFF)))
              else if last_four_bit = 1 then
                and_then (array_get regs regA) (\<lambda>a. and_then (array_get regs regB) (\<lambda>b.
                  array_set regs regDst ((a - b) AND 0xFFFF)))
              else if last_four_bit = 2 then
                and_then (array_get regs regA) (\<lambda>a. and_then (array_get regs regB) (\<lambda>b.
                  array_set regs regDst ((a OR b) AND 0xFFFF)))
              else if last_four_bit = 3 then
                and_then (array_get regs regA) (\<lambda>a. and_then (array_get regs regB) (\<lambda>b.
                  array_set regs regDst ((a AND b) AND 0xFFFF)))
              else if last_four_bit = 4 then
                and_then (array_get regs regA) (\<lambda>a. and_then (array_get regs regB) (\<lambda>b.
                  array_set regs regDst (if a < b then 1 else 0)))
              else Inr regs)
           else Inr regs)
          (\<lambda>regs'.
             if last_four_bit = 8 then
               and_then (array_get regs' regA) (\<lambda>a. Inr (regs', mem, a AND 0x1FFF))
             else Inr (regs', mem, current_pc + 1)))"

definition exec_ADDI :: "unsigned list \<Rightarrow> unsigned list \<Rightarrow> unsigned \<Rightarrow> unsigned \<Rightarrow> effect" where
  "exec_ADDI regs mem current_pc instruction =
    (let regA = unat (extract_bits instruction 10 12);
         regDst = unat (extract_bits instruction 7 9);
         imm = sign_extend (extract_bits instruction 0 6)
     in if regDst \<noteq> 0 then
          and_then (array_get regs regA) (\<lambda>a.
          and_then (array_set regs regDst ((a + imm) AND 0xFFFF)) (\<lambda>regs'.
            Inr (regs', mem, current_pc + 1)))
        else Inr (regs, mem, current_pc + 1))"

definition exec_J :: "unsigned list \<Rightarrow> unsigned list \<Rightarrow> unsigned \<Rightarrow> unsigned \<Rightarrow> effect" where
  "exec_J regs mem current_pc instruction =
    (let imm = extract_bits instruction 0 12
     in Inr (regs, mem, imm))"

definition exec_JAL :: "unsigned list \<Rightarrow> unsigned list \<Rightarrow> unsigned \<Rightarrow> unsigned \<Rightarrow> effect" where
  "exec_JAL regs mem current_pc instruction =
    (let imm = extract_bits instruction 0 12
     in and_then (array_set regs 7 ((current_pc + 1) AND 0xFFFF)) (\<lambda>regs'.
          Inr (regs', mem, imm)))"

definition exec_LW :: "unsigned list \<Rightarrow> unsigned list \<Rightarrow> unsigned \<Rightarrow> unsigned \<Rightarrow> effect" where
  "exec_LW regs mem current_pc instruction =
    (let regA = unat (extract_bits instruction 10 12);
         regDst = unat (extract_bits instruction 7 9);
         imm = sign_extend (extract_bits instruction 0 6)
     in and_then (array_get regs regA) (\<lambda>a.
          let addr = unat ((a + imm) AND 0x1FFF)
          in if regDst \<noteq> 0 then
               and_then (array_get mem addr) (\<lambda>v.
               and_then (array_set regs regDst v) (\<lambda>regs'.
                 Inr (regs', mem, current_pc + 1)))
             else Inr (regs, mem, current_pc + 1)))"

definition exec_SW :: "unsigned list \<Rightarrow> unsigned list \<Rightarrow> unsigned \<Rightarrow> unsigned \<Rightarrow> effect" where
  "exec_SW regs mem current_pc instruction =
    (let regA = unat (extract_bits instruction 10 12);
         regB = unat (extract_bits instruction 7 9);
         imm = sign_extend (extract_bits instruction 0 6)
     in and_then (array_get regs regA) (\<lambda>a.
          let addr = unat ((a + imm) AND 0x1FFF)
          in and_then (array_get regs regB) (\<lambda>b.
             and_then (array_set mem addr b) (\<lambda>mem'.
               Inr (regs, mem', current_pc + 1)))))"

definition exec_JEQ :: "unsigned list \<Rightarrow> unsigned list \<Rightarrow> unsigned \<Rightarrow> unsigned \<Rightarrow> effect" where
  "exec_JEQ regs mem current_pc instruction =
    (let regA = unat (extract_bits instruction 10 12);
         regB = unat (extract_bits instruction 7 9);
         imm = sign_extend (extract_bits instruction 0 6)
     in and_then (array_get regs regA) (\<lambda>a. and_then (array_get regs regB) (\<lambda>b.
          if a = b then Inr (regs, mem, current_pc + 1 + imm)
          else Inr (regs, mem, current_pc + 1))))"

definition exec_SLTI :: "unsigned list \<Rightarrow> unsigned list \<Rightarrow> unsigned \<Rightarrow> unsigned \<Rightarrow> effect" where
  "exec_SLTI regs mem current_pc instruction =
    (let regA = unat (extract_bits instruction 10 12);
         regDst = unat (extract_bits instruction 7 9);
         imm = sign_extend (extract_bits instruction 0 6)
     in if regDst \<noteq> 0 then
          and_then (array_get regs regA) (\<lambda>a.
          and_then (array_set regs regDst (if a < imm then 1 else 0)) (\<lambda>regs'.
            Inr (regs', mem, current_pc + 1)))
        else Inr (regs, mem, current_pc + 1))"

text \<open>The \<^verbatim>\<open>switch (opcode)\<close>, with its \<^verbatim>\<open>default\<close> branch.\<close>

definition execute :: "unsigned list \<Rightarrow> unsigned list \<Rightarrow> unsigned \<Rightarrow> unsigned \<Rightarrow> effect" where
  "execute regs mem current_pc instruction =
    (let opcode = extract_bits instruction 13 15
     in if opcode = 0 then exec_ADD regs mem current_pc instruction
        else if opcode = 1 then exec_ADDI regs mem current_pc instruction
        else if opcode = 2 then exec_J regs mem current_pc instruction
        else if opcode = 3 then exec_JAL regs mem current_pc instruction
        else if opcode = 4 then exec_LW regs mem current_pc instruction
        else if opcode = 5 then exec_SW regs mem current_pc instruction
        else if opcode = 6 then exec_JEQ regs mem current_pc instruction
        else if opcode = 7 then exec_SLTI regs mem current_pc instruction
        else Inl (Unknown_opcode opcode current_pc))"

text \<open>The instruction fetch at the head of the loop body.\<close>

definition fetch :: "machine \<Rightarrow> error + unsigned" where
  "fetch s = array_get (memory s) (unat (pc s) mod MEM_SIZE)"

text \<open>
  The body of \<^verbatim>\<open>while (!halted)\<close>: fetch, decode and execute, then the three assignments
  that end the body.
\<close>

definition cycle :: "machine \<Rightarrow> error + machine" where
  "cycle s =
    (let current_pc = pc s
     in and_then (fetch s) (\<lambda>instruction.
        and_then (execute (registers s) (memory s) current_pc instruction)
          (\<lambda>(regs, mem, next_pc).
             and_then (array_set regs 0 0) (\<lambda>regs'.
               Inr \<lparr>memory = mem, registers = regs', pc = next_pc,
                    halted = (unat next_pc mod MEM_SIZE = unat current_pc)\<rparr>))))"

text \<open>
  The loop, run for at most \<open>n\<close> iterations: the state after \<open>n\<close> cycles, or the state in
  which the loop ended if it ended sooner.
\<close>

fun run_cycles :: "nat \<Rightarrow> machine \<Rightarrow> error + machine" where
  "run_cycles 0 s = Inr s"
| "run_cycles (Suc n) s =
    (if halted s then Inr s
     else and_then (cycle s) (\<lambda>s'. run_cycles n s'))"

text \<open>
  \<^verbatim>\<open>main\<close> from the zero-initialised arrays on: load the image, then run the loop.
\<close>

definition boot :: "string list \<Rightarrow> error + machine" where
  "boot f =
    and_then (load_machine_code f (replicate MEM_SIZE 0)) (\<lambda>mem. Inr (initial_machine mem))"

definition simulate :: "nat \<Rightarrow> string list \<Rightarrow> error + machine" where
  "simulate n f = and_then (boot f) (\<lambda>s. run_cycles n s)"

subsection \<open>Predicates used in the statements\<close>

text \<open>
  The two arrays have the sizes of their declarations, \<^verbatim>\<open>memory[MEM_SIZE]\<close> and
  \<^verbatim>\<open>registers[NUM_REGS]\<close>.
\<close>

definition wf_machine :: "machine \<Rightarrow> bool" where
  "wf_machine s = (length (memory s) = MEM_SIZE \<and> length (registers s) = NUM_REGS)"

text \<open>Every element of an array is a 16-bit value.\<close>

definition all_words16 :: "unsigned list \<Rightarrow> bool" where
  "all_words16 xs = list_all (\<lambda>w. unat w \<le> 65535) xs"

subsection \<open>Example inputs\<close>

text \<open>
  A machine with one instruction at address 0, zero elsewhere, about to run its first cycle.
\<close>

definition one_instruction_machine :: "unsigned \<Rightarrow> unsigned list \<Rightarrow> machine" where
  "one_instruction_machine instruction regs =
    \<lparr>memory = (replicate MEM_SIZE 0)[0 := instruction], registers = regs, pc = 0,
     halted = False\<rparr>"

text \<open>The image of the one-instruction program \<^verbatim>\<open>j 0\<close>.\<close>

definition J_self_program :: "string list" where
  "J_self_program = [''ram[0] = 16'b0100000000000000;'']"

text \<open>
  \<^verbatim>\<open>jeq $0, $0, -1\<close> at address 0: a branch to itself, taken because both registers
  are register 0.
\<close>

definition JEQ_self_program :: "string list" where
  "JEQ_self_program = [''ram[0] = 16'b1100000001111111;'']"

text \<open>An image whose literal has seventeen binary digits, and one whose literal has one.\<close>

definition wide_literal_program :: "string list" where
  "wide_literal_program = [''ram[0] = 16'b11111111111111111;'']"

definition short_literal_program :: "string list" where
  "short_literal_program = [''ram[0] = 16'b1;'']"

text \<open>An image whose addresses are 0, 1 and 3.\<close>

definition gap_program :: "string list" where
  "gap_program =
    [''ram[0] = 16'b0010000010000101;'',
     ''ram[1] = 16'b0010000100000011;'',
     ''ram[3] = 16'b0100000000000011;'']"

subsection \<open>Conditions on program images\<close>

text \<open>
  What the loader asks of the line at position \<open>k\<close> (counted from 0), read off
  \<^verbatim>\<open>load_machine_code\<close>: the line matches the pattern, its address digits read \<open>k\<close>, and
  \<^verbatim>\<open>stoi\<close> converts its literal.  An image is accepted when every line passes and there
  are at most \<^verbatim>\<open>MEM_SIZE\<close> lines.
\<close>

definition line_accepted :: "nat \<Rightarrow> string \<Rightarrow> bool" where
  "line_accepted k line =
    (case machine_code_re line of
       None \<Rightarrow> False
     | Some (sm1, sm2) \<Rightarrow> stoi sm1 10 = Some k \<and> stoi sm2 2 \<noteq> None)"

definition image_accepted :: "string list \<Rightarrow> bool" where
  "image_accepted f =
    (length f \<le> MEM_SIZE \<and> list_all (\<lambda>(k, line). line_accepted k line) (enumerate 0 f))"

text \<open>
  The acceptance condition in the words of the specification: every line matches the
  pattern with an address field and a 16-character binary literal, the addresses start at 0
  and go up by 1 per line, and the image fits the memory.
\<close>

definition spec_line_ok :: "nat \<Rightarrow> string \<Rightarrow> bool" where
  "spec_line_ok k line =
    (case machine_code_re line of
       None \<Rightarrow> False
     | Some (sm1, sm2) \<Rightarrow>
         stoi sm1 10 = Some k \<and> length sm2 = 16 \<and>
         list_all (\<lambda>c. c = CHR ''0'' \<or> c = CHR ''1'') sm2)"

definition spec_image_ok :: "string list \<Rightarrow> bool" where
  "spec_image_ok f =
    (length f \<le> MEM_SIZE \<and> list_all (\<lambda>(k, line). spec_line_ok k line) (enumerate 0 f))"

text \<open>The literal of a line converts to a value that fits sixteen bits.\<close>

definition literal_fits_word :: "string \<Rightarrow> bool" where
  "literal_fits_word line =
    (case machine_code_re line of
       None \<Rightarrow> False
     | Some (sm1, sm2) \<Rightarrow>
         (case stoi sm2 2 of None \<Rightarrow> False | Some instr \<Rightarrow> instr \<le> 65535))"

text \<open>The literal of a line has at most sixteen characters.\<close>

definition literal_short :: "string \<Rightarrow> bool" where
  "literal_short line =
    (case machine_code_re line of None \<Rightarrow> False | Some (sm1, sm2) \<Rightarrow> length sm2 \<le> 16)"

text \<open>The program counter of a state is a 16-bit value, as the specification has it.\<close>

definition pc_is_word :: "machine \<Rightarrow> bool" where
  "pc_is_word s = (unat (pc s) \<le> 65535)"

section \<open>Basic facts\<close>

lemma and_then_Inr: "and_then (Inr x) f = f x"
  and and_then_Inl: "and_then (Inl e) f = Inl e"
  by (simp_all add: and_then_def)

lemma array_get_ok: "i < length a \<Longrightarrow> array_get a i = Inr (a ! i)"
  by (simp add: array_get_def)

lemma array_set_ok: "i < length a \<Longrightarrow> array_set a i v = Inr (a[i := v])"
  by (simp add: array_set_def)

lemma unat_and_lt: "unat ((x::unsigned) AND m) < Suc (unat m)"
  using word_and_le1 [of x m] by (simp add: word_le_nat_alt less_Suc_eq_le)

lemma eb_13_15: "extract_bits w 13 15 = drop_bit 13 w AND 7"
  and eb_10_12: "extract_bits w 10 12 = drop_bit 10 w AND 7"
  and eb_7_9: "extract_bits w 7 9 = drop_bit 7 w AND 7"
  and eb_4_6: "extract_bits w 4 6 = drop_bit 4 w AND 7"
  and eb_0_3: "extract_bits w 0 3 = w AND 0xF"
  and eb_0_6: "extract_bits w 0 6 = w AND 0x7F"
  and eb_0_12: "extract_bits w 0 12 = w AND 0x1FFF"
  by (simp_all add: extract_bits_def)

text \<open>The three-bit fields index the register array inside its bounds.\<close>

lemma field3_lt:
  "unat (extract_bits w 13 15) < 8" "unat (extract_bits w 10 12) < 8"
  "unat (extract_bits w 7 9) < 8" "unat (extract_bits w 4 6) < 8"
  using unat_and_lt [of "drop_bit 13 w" 7] unat_and_lt [of "drop_bit 10 w" 7]
    unat_and_lt [of "drop_bit 7 w" 7] unat_and_lt [of "drop_bit 4 w" 7]
  by (simp_all add: eb_13_15 eb_10_12 eb_7_9 eb_4_6)

lemma word_lt8_cases:
  "unat (x::unsigned) < 8 \<Longrightarrow>
    x = 0 \<or> x = 1 \<or> x = 2 \<or> x = 3 \<or> x = 4 \<or> x = 5 \<or> x = 6 \<or> x = 7"
  by unat_arith

lemma opcode_cases:
  obtains "extract_bits i 13 15 = 0" | "extract_bits i 13 15 = 1" | "extract_bits i 13 15 = 2"
  | "extract_bits i 13 15 = 3" | "extract_bits i 13 15 = 4" | "extract_bits i 13 15 = 5"
  | "extract_bits i 13 15 = 6" | "extract_bits i 13 15 = 7"
  using word_lt8_cases [OF field3_lt(1) [of i]] by blast

lemma imm13_lt: "unat (extract_bits w 0 12) < 8192"
  using unat_and_lt [of w "0x1FFF"] by (simp add: eb_0_12)

lemma addr_lt: "unat ((a::unsigned) AND 0x1FFF) < 8192"
  using unat_and_lt [of a "0x1FFF"] by simp

lemma mask16_le: "unat ((a::unsigned) AND 0xFFFF) \<le> 65535"
  using unat_and_lt [of a "0xFFFF"] by simp

lemmas access_simps = and_then_Inr and_then_Inl array_get_ok array_set_ok field3_lt

subsection \<open>What each opcode does when the arrays have their declared sizes\<close>

lemma exec_ADD_eq:
  assumes "length regs = 8"
  shows "exec_ADD regs mem current_pc i =
    (let regA = unat (extract_bits i 10 12);
         regB = unat (extract_bits i 7 9);
         regDst = unat (extract_bits i 4 6);
         sub = extract_bits i 0 3;
         a = regs ! regA;
         b = regs ! regB
     in Inr (if regDst = 0 then regs
             else if sub = 0 then regs[regDst := (a + b) AND 0xFFFF]
             else if sub = 1 then regs[regDst := (a - b) AND 0xFFFF]
             else if sub = 2 then regs[regDst := (a OR b) AND 0xFFFF]
             else if sub = 3 then regs[regDst := (a AND b) AND 0xFFFF]
             else if sub = 4 then regs[regDst := (if a < b then 1 else 0)]
             else regs,
             mem,
             if sub = 8 then a AND 0x1FFF else current_pc + 1))"
  using assms by (simp add: exec_ADD_def Let_def access_simps)

lemma exec_ADDI_eq:
  assumes "length regs = 8"
  shows "exec_ADDI regs mem current_pc i =
    (let regA = unat (extract_bits i 10 12);
         regDst = unat (extract_bits i 7 9);
         imm = sign_extend (extract_bits i 0 6)
     in Inr (if regDst = 0 then regs else regs[regDst := (regs ! regA + imm) AND 0xFFFF],
             mem, current_pc + 1))"
  using assms by (simp add: exec_ADDI_def Let_def access_simps)

lemma exec_JAL_eq:
  assumes "length regs = 8"
  shows "exec_JAL regs mem current_pc i =
    Inr (regs[7 := (current_pc + 1) AND 0xFFFF], mem, extract_bits i 0 12)"
  using assms by (simp add: exec_JAL_def Let_def access_simps)

lemma exec_LW_eq:
  assumes "length regs = 8" "length mem = 8192"
  shows "exec_LW regs mem current_pc i =
    (let regA = unat (extract_bits i 10 12);
         regDst = unat (extract_bits i 7 9);
         imm = sign_extend (extract_bits i 0 6);
         addr = unat ((regs ! regA + imm) AND 0x1FFF)
     in Inr (if regDst = 0 then regs else regs[regDst := mem ! addr], mem, current_pc + 1))"
  using assms by (simp add: exec_LW_def Let_def access_simps addr_lt)

lemma exec_SW_eq:
  assumes "length regs = 8" "length mem = 8192"
  shows "exec_SW regs mem current_pc i =
    (let regA = unat (extract_bits i 10 12);
         regB = unat (extract_bits i 7 9);
         imm = sign_extend (extract_bits i 0 6);
         addr = unat ((regs ! regA + imm) AND 0x1FFF)
     in Inr (regs, mem[addr := regs ! regB], current_pc + 1))"
  using assms by (simp add: exec_SW_def Let_def access_simps addr_lt)

lemma exec_JEQ_eq:
  assumes "length regs = 8"
  shows "exec_JEQ regs mem current_pc i =
    (let regA = unat (extract_bits i 10 12);
         regB = unat (extract_bits i 7 9);
         imm = sign_extend (extract_bits i 0 6)
     in Inr (regs, mem,
             if regs ! regA = regs ! regB then current_pc + 1 + imm else current_pc + 1))"
  using assms by (simp add: exec_JEQ_def Let_def access_simps)

lemma exec_SLTI_eq:
  assumes "length regs = 8"
  shows "exec_SLTI regs mem current_pc i =
    (let regA = unat (extract_bits i 10 12);
         regDst = unat (extract_bits i 7 9);
         imm = sign_extend (extract_bits i 0 6)
     in Inr (if regDst = 0 then regs
             else regs[regDst := (if regs ! regA < imm then 1 else 0)],
             mem, current_pc + 1))"
  using assms by (simp add: exec_SLTI_def Let_def access_simps)

lemmas exec_eqs = exec_ADD_eq exec_ADDI_eq exec_J_def exec_JAL_eq exec_LW_eq exec_SW_eq
  exec_JEQ_eq exec_SLTI_eq

subsection \<open>A cycle never fails\<close>

lemma wf_lengths:
  "wf_machine s \<Longrightarrow> length (registers s) = 8" "wf_machine s \<Longrightarrow> length (memory s) = 8192"
  by (simp_all add: wf_machine_def MEM_SIZE_def NUM_REGS_def)

lemma execute_total:
  assumes "length regs = 8" "length mem = 8192"
  shows "\<exists>regs' mem' next_pc. execute regs mem current_pc i = Inr (regs', mem', next_pc)
           \<and> length regs' = 8 \<and> length mem' = 8192"
  using assms by (cases i rule: opcode_cases) (simp_all add: execute_def exec_eqs Let_def)

lemma fetch_eq:
  "wf_machine s \<Longrightarrow> fetch s = Inr (memory s ! (unat (pc s) mod MEM_SIZE))"
  by (simp add: fetch_def wf_machine_def array_get_ok MEM_SIZE_def)

lemma cycle_eq:
  assumes "wf_machine s"
    and "execute (registers s) (memory s) (pc s) (memory s ! (unat (pc s) mod MEM_SIZE))
           = Inr (regs, mem, next_pc)"
  shows "cycle s = Inr \<lparr>memory = mem, registers = regs[0 := 0], pc = next_pc,
                     halted = (unat next_pc mod MEM_SIZE = unat (pc s))\<rparr>"
proof -
  from execute_total [OF wf_lengths [OF assms(1)],
      of "pc s" "memory s ! (unat (pc s) mod MEM_SIZE)"] assms(2)
  have "length regs = 8" by simp
  then show ?thesis
    using assms by (simp add: cycle_def fetch_eq Let_def and_then_Inr array_set_ok)
qed

lemma cycle_total:
  assumes "wf_machine s"
  shows "\<exists>s'. cycle s = Inr s' \<and> wf_machine s'"
proof -
  from execute_total [OF wf_lengths [OF assms],
      of "pc s" "memory s ! (unat (pc s) mod MEM_SIZE)"]
  obtain regs mem next_pc where
    e: "execute (registers s) (memory s) (pc s) (memory s ! (unat (pc s) mod MEM_SIZE))
          = Inr (regs, mem, next_pc)"
    and "length regs = 8" "length mem = 8192" by blast
  then show ?thesis
    using cycle_eq [OF assms e] by (simp add: wf_machine_def MEM_SIZE_def NUM_REGS_def)
qed

lemma run_cycles_total:
  "wf_machine s \<Longrightarrow> \<exists>t. run_cycles n s = Inr t \<and> wf_machine t"
proof (induction n arbitrary: s)
  case 0
  then show ?case by simp
next
  case (Suc n)
  from cycle_total [OF Suc.prems] obtain s' where "cycle s = Inr s'" "wf_machine s'" by blast
  with Suc.IH [of s'] Suc.prems show ?case by (auto simp: and_then_Inr)
qed

subsection \<open>Sign extension, bit by bit\<close>

lemma bit6: "(v::unsigned) AND 0x40 \<noteq> 0 \<longleftrightarrow> bit v 6"
  using and_exp_eq_0_iff_not_bit [of v 6] by simp

lemma bit_ffff: "bit (0xFFFF::int) n \<longleftrightarrow> n < 16"
proof -
  have eq: "(0xFFFF::int) = mask 16" by (simp add: mask_eq_exp_minus_1)
  show ?thesis unfolding eq by (auto simp add: bit_mask_iff)
qed

lemma bit_ff80: "bit (0xFF80::int) n \<longleftrightarrow> 7 \<le> n \<and> n \<le> 15"
proof -
  have eq: "(0xFF80::int) = push_bit 7 (mask 9)" by (simp add: mask_eq_exp_minus_1)
  show ?thesis unfolding eq by (auto simp add: bit_push_bit_iff bit_mask_iff)
qed

lemma bit_7f:
  assumes "(v::unsigned) \<le> 0x7F" "bit v n"
  shows "n < 7"
proof -
  from assms(1) have "uint v < 2 ^ 7" by (simp add: word_le_def)
  then have "v AND mask 7 = v" by (simp only: mask_eq_iff)
  then have "bit v n = bit (v AND mask 7) n" by simp
  with assms(2) have "bit (v AND mask 7) n" by blast
  then show ?thesis by (simp add: bit_and_iff bit_mask_iff)
qed

lemma bit_sign_extend:
  assumes "v \<le> 0x7F"
  shows "bit (sign_extend v) n \<longleftrightarrow> (n < 7 \<and> bit v n) \<or> (7 \<le> n \<and> n \<le> 15 \<and> bit v 6)"
  using bit_7f [OF assms, of n]
  by (auto simp add: sign_extend_def bit6 bit_and_iff bit_or_iff bit_ffff bit_ff80)

lemma sign_extend_clear: "v \<le> 0x7F \<Longrightarrow> \<not> bit v 6 \<Longrightarrow> sign_extend v = v"
  by (rule bit_eqI) (auto simp add: bit_sign_extend dest: bit_7f)

lemma sign_extend_set: "v \<le> 0x7F \<Longrightarrow> bit v 6 \<Longrightarrow> sign_extend v = v OR 0xFF80"
  by (rule bit_eqI) (auto simp add: bit_sign_extend bit_or_iff bit_ff80 dest: bit_7f)

lemma sign_extend_sint:
  assumes "v \<le> 0x7F"
  shows "sint (ucast (sign_extend v) :: 16 word) = sint (ucast v :: 7 word)"
  by (rule bit_eqI)
    (auto simp add: bit_sint_iff bit_ucast_iff bit_sign_extend [OF assms] dest: bit_7f [OF assms])

lemma field7_le: "extract_bits i 0 6 \<le> 0x7F"
  by (simp add: eb_0_6 word_and_le1)

subsection \<open>The example inputs, evaluated\<close>

lemmas load_eval = load_machine_code_def machine_code_re_def stoi_def is_digit_def
  digit_val_def INT_MAX_def and_then_def array_set_def Let_def

lemma one_instruction_wf:
  "length regs = 8 \<Longrightarrow> wf_machine (one_instruction_machine instruction regs)"
  by (simp add: wf_machine_def one_instruction_machine_def NUM_REGS_def)

lemma one_instruction_fetch:
  "fetch (one_instruction_machine instruction regs) = Inr instruction"
  by (simp add: fetch_def one_instruction_machine_def array_get_def MEM_SIZE_def)

lemma one_instruction_sel:
  "registers (one_instruction_machine instruction regs) = regs"
  "pc (one_instruction_machine instruction regs) = 0"
  "halted (one_instruction_machine instruction regs) = False"
  "memory (one_instruction_machine instruction regs) = (replicate MEM_SIZE 0)[0 := instruction]"
  by (simp_all add: one_instruction_machine_def)

lemma boot_J_self:
  "boot J_self_program = Inr (one_instruction_machine 0x4000 (replicate NUM_REGS 0))"
  by (simp add: boot_def J_self_program_def load_eval MEM_SIZE_def initial_machine_def
      one_instruction_machine_def)

lemma cycle_J_self:
  "cycle (one_instruction_machine 0x4000 (replicate NUM_REGS 0)) =
     Inr \<lparr>memory = (replicate MEM_SIZE 0)[0 := 0x4000], registers = replicate NUM_REGS 0,
          pc = 0, halted = True\<rparr>"
proof -
  let ?s = "one_instruction_machine 0x4000 (replicate NUM_REGS 0)"
  have w: "wf_machine ?s" by (simp add: one_instruction_wf NUM_REGS_def)
  have e: "execute (registers ?s) (memory ?s) (pc ?s) (memory ?s ! (unat (pc ?s) mod MEM_SIZE))
      = Inr (replicate NUM_REGS 0, (replicate MEM_SIZE 0)[0 := 0x4000], 0)"
    by (simp add: one_instruction_sel MEM_SIZE_def execute_def extract_bits_def exec_J_def)
  have r: "(replicate NUM_REGS (0::unsigned))[0 := 0] = replicate NUM_REGS 0"
    by (simp add: NUM_REGS_def eval_nat_numeral)
  from cycle_eq [OF w e] show ?thesis by (simp add: r one_instruction_sel)
qed

subsection \<open>Register 0 along a run\<close>

lemma cycle_reg0:
  assumes "wf_machine s" "cycle s = Inr s'"
  shows "registers s' ! 0 = 0"
proof -
  let ?i = "memory s ! (unat (pc s) mod MEM_SIZE)"
  from execute_total [OF wf_lengths [OF assms(1)], of "pc s" ?i]
  obtain regs mem next_pc where
    e: "execute (registers s) (memory s) (pc s) ?i = Inr (regs, mem, next_pc)"
    and l: "length regs = 8" by blast
  from cycle_eq [OF assms(1) e] assms(2) l show ?thesis by auto
qed

lemma run_cycles_reg0:
  "wf_machine s \<Longrightarrow> registers s ! 0 = 0 \<Longrightarrow> run_cycles n s = Inr t \<Longrightarrow> registers t ! 0 = 0"
proof (induction n arbitrary: s)
  case 0
  then show ?case by simp
next
  case (Suc n)
  from cycle_total [OF Suc.prems(1)] obtain s' where c: "cycle s = Inr s'" "wf_machine s'"
    by blast
  show ?case
  proof (cases "halted s")
    case True
    with Suc.prems show ?thesis by simp
  next
    case False
    with Suc.prems(3) c have "run_cycles n s' = Inr t" by (simp add: and_then_Inr)
    from Suc.IH [OF c(2) cycle_reg0 [OF Suc.prems(1) c(1)] this] show ?thesis .
  qed
qed

lemma execute_dest0:
  assumes "length regs = 8" "length mem = 8192"
    and "(extract_bits i 13 15 = 0 \<and> extract_bits i 4 6 = 0) \<or>
         (extract_bits i 13 15 \<in> {1, 4, 7} \<and> extract_bits i 7 9 = 0)"
    and "execute regs mem current_pc i = Inr (regs', mem', next_pc)"
  shows "regs' = regs"
  using assms by (auto simp: execute_def exec_eqs Let_def)

section \<open>The claims\<close>

subsection \<open>Halting\<close>

text \<open>
  C1.  In every machine state whose arrays have their declared sizes (every reachable state
  is one), the cycle fetches an instruction, executes it to a \<^verbatim>\<open>next_pc\<close> without
  error, commits \<^verbatim>\<open>next_pc\<close> as the new program counter and sets \<^verbatim>\<open>halted\<close> exactly
  when \<^verbatim>\<open>next_pc\<close> modulo 8192 equals \<^verbatim>\<open>current_pc\<close>.  The loop stops on nothing but
  that flag: from a state that is not halted it goes on with the state the cycle returned.
  The program whose only line is \<^verbatim>\<open>j 0\<close> at address 0 is not halted before its first
  cycle and is halted after it, with program counter 0.
\<close>

theorem halt_rule:
  assumes "wf_machine s"
  shows "(\<exists>instruction regs mem next_pc s'.
      fetch s = Inr instruction \<and>
      execute (registers s) (memory s) (pc s) instruction = Inr (regs, mem, next_pc) \<and>
      cycle s = Inr s' \<and>
      pc s' = next_pc \<and>
      (halted s' \<longleftrightarrow> unat next_pc mod 8192 = unat (pc s)) \<and>
      (\<forall>n. run_cycles (Suc n) s = (if halted s then Inr s else run_cycles n s')))
    \<and> simulate 0 J_self_program =
        Inr \<lparr>memory = (replicate MEM_SIZE 0)[0 := 0x4000], registers = replicate NUM_REGS 0,
             pc = 0, halted = False\<rparr>
    \<and> simulate 1 J_self_program =
        Inr \<lparr>memory = (replicate MEM_SIZE 0)[0 := 0x4000], registers = replicate NUM_REGS 0,
             pc = 0, halted = True\<rparr>"
proof (intro conjI)
  let ?i = "memory s ! (unat (pc s) mod MEM_SIZE)"
  from execute_total [OF wf_lengths [OF assms], of "pc s" ?i]
  obtain regs mem next_pc where
    e: "execute (registers s) (memory s) (pc s) ?i = Inr (regs, mem, next_pc)" by blast
  note c = cycle_eq [OF assms e]
  show "\<exists>instruction regs mem next_pc s'.
      fetch s = Inr instruction \<and>
      execute (registers s) (memory s) (pc s) instruction = Inr (regs, mem, next_pc) \<and>
      cycle s = Inr s' \<and>
      pc s' = next_pc \<and>
      (halted s' \<longleftrightarrow> unat next_pc mod 8192 = unat (pc s)) \<and>
      (\<forall>n. run_cycles (Suc n) s = (if halted s then Inr s else run_cycles n s'))"
    using fetch_eq [OF assms] e c by (simp add: and_then_Inr MEM_SIZE_def)
next
  show "simulate 0 J_self_program =
        Inr \<lparr>memory = (replicate MEM_SIZE 0)[0 := 0x4000], registers = replicate NUM_REGS 0,
             pc = 0, halted = False\<rparr>"
    by (simp add: simulate_def boot_J_self and_then_Inr one_instruction_machine_def)
next
  show "simulate 1 J_self_program =
        Inr \<lparr>memory = (replicate MEM_SIZE 0)[0 := 0x4000], registers = replicate NUM_REGS 0,
             pc = 0, halted = True\<rparr>"
    by (simp add: simulate_def boot_J_self and_then_Inr one_instruction_sel cycle_J_self)
qed

theorem halt_rule_witness:
  "wf_machine (one_instruction_machine 0x4000 (replicate NUM_REGS 0)) \<and>
   (\<exists>s'. cycle (one_instruction_machine 0x4000 (replicate NUM_REGS 0)) = Inr s' \<and>
      pc s' = 0 \<and> halted s')"
proof -
  have w: "wf_machine (one_instruction_machine 0x4000 (replicate NUM_REGS 0))"
    by (simp add: one_instruction_wf NUM_REGS_def)
  from halt_rule [OF w] show ?thesis
    using w by (auto simp add: cycle_J_self)
qed

subsection \<open>Register 0\<close>

text \<open>
  C2.  Whatever instruction a cycle executes, register 0 is 0 when the cycle is over.  When
  the instruction names register 0 as its destination (bits 6:4 of an ADD-class instruction,
  bits 9:7 of ADDI, LW and SLTI), the cycle changes no register but register 0, which it
  sets to 0.  Along a run of any length register 0 is 0 in the state reached, provided it
  was 0 at the start (as it is when \<^verbatim>\<open>main\<close> enters the loop) or at least one cycle ran.
\<close>

theorem register_zero:
  assumes "wf_machine s"
  shows "(\<exists>i s'. fetch s = Inr i \<and> cycle s = Inr s' \<and> registers s' ! 0 = 0 \<and>
            ((extract_bits i 13 15 = 0 \<and> extract_bits i 4 6 = 0) \<or>
             (extract_bits i 13 15 \<in> {1, 4, 7} \<and> extract_bits i 7 9 = 0)
             \<longrightarrow> registers s' = (registers s)[0 := 0]))
       \<and> (\<exists>t. run_cycles n s = Inr t \<and>
             (registers s ! 0 = 0 \<or> (0 < n \<and> \<not> halted s) \<longrightarrow> registers t ! 0 = 0))"
proof (rule conjI)
  let ?i = "memory s ! (unat (pc s) mod MEM_SIZE)"
  from execute_total [OF wf_lengths [OF assms], of "pc s" ?i]
  obtain regs mem next_pc where
    e: "execute (registers s) (memory s) (pc s) ?i = Inr (regs, mem, next_pc)"
    and l: "length regs = 8" by blast
  note c = cycle_eq [OF assms e]
  have "registers s = regs"
    if "(extract_bits ?i 13 15 = 0 \<and> extract_bits ?i 4 6 = 0) \<or>
        (extract_bits ?i 13 15 \<in> {1, 4, 7} \<and> extract_bits ?i 7 9 = 0)"
    using execute_dest0 [OF wf_lengths [OF assms] that e] by simp
  then show "\<exists>i s'. fetch s = Inr i \<and> cycle s = Inr s' \<and> registers s' ! 0 = 0 \<and>
            ((extract_bits i 13 15 = 0 \<and> extract_bits i 4 6 = 0) \<or>
             (extract_bits i 13 15 \<in> {1, 4, 7} \<and> extract_bits i 7 9 = 0)
             \<longrightarrow> registers s' = (registers s)[0 := 0])"
    using fetch_eq [OF assms] c l by auto
next
  from run_cycles_total [OF assms, of n] obtain t where t: "run_cycles n s = Inr t" by blast
  have "registers t ! 0 = 0" if "registers s ! 0 = 0"
    using run_cycles_reg0 [OF assms that t] .
  moreover have "registers t ! 0 = 0" if "0 < n" "\<not> halted s"
  proof -
    from that(1) obtain m where m: "n = Suc m" by (cases n) auto
    from cycle_total [OF assms] obtain s' where c: "cycle s = Inr s'" "wf_machine s'" by blast
    from t m that(2) c have "run_cycles m s' = Inr t" by (simp add: and_then_Inr)
    from run_cycles_reg0 [OF c(2) cycle_reg0 [OF assms c(1)] this] show ?thesis .
  qed
  ultimately show "\<exists>t. run_cycles n s = Inr t \<and>
             (registers s ! 0 = 0 \<or> (0 < n \<and> \<not> halted s) \<longrightarrow> registers t ! 0 = 0)"
    using t by auto
qed

text \<open>
  The instruction \<^verbatim>\<open>add $0, $1, $2\<close> (\<open>0x0500\<close>), run with 9 in register 0, 5 in
  register 1 and 3 in register 2: the sum is not written and register 0 becomes 0.
\<close>

theorem register_zero_witness:
  "wf_machine (one_instruction_machine 0x0500 [9, 5, 3, 0, 0, 0, 0, 0]) \<and>
   (\<exists>s'. cycle (one_instruction_machine 0x0500 [9, 5, 3, 0, 0, 0, 0, 0]) = Inr s' \<and>
      registers s' = [0, 5, 3, 0, 0, 0, 0, 0]) \<and>
   (\<exists>t. run_cycles 1 (one_instruction_machine 0x0500 [9, 5, 3, 0, 0, 0, 0, 0]) = Inr t \<and>
      registers t ! 0 = 0)"
proof -
  let ?s = "one_instruction_machine 0x0500 [9, 5, 3, 0, 0, 0, 0, 0]"
  have w: "wf_machine ?s" by (simp add: one_instruction_wf)
  have f: "extract_bits 0x0500 13 15 = 0" "extract_bits 0x0500 4 6 = 0"
    by (simp_all add: extract_bits_def)
  from register_zero [OF w, of 1] show ?thesis
    using w f by (auto simp add: one_instruction_fetch one_instruction_sel)
qed

subsection \<open>The ADD class\<close>

text \<open>
  C3.  A cycle whose instruction has opcode 0 reads regA from bits 12:10, regB from bits 9:7,
  regDst from bits 6:4 and the sub-code from bits 3:0.  With regDst not 0, sub-code 0 writes
  the sum of the two registers masked to 16 bits, 1 the masked difference, 2 the bitwise or,
  3 the bitwise and, 4 the value 1 if regA's value is below regB's as unsigned numbers and 0
  otherwise.  Sub-code 8 sets the next program counter to regA's value masked to 13 bits and
  writes no register.  Any other sub-code, and any sub-code with regDst 0, writes no
  register.  Memory is untouched; the trailing \<open>[0 := 0]\<close> is the assignment
  \<^verbatim>\<open>registers[0] = 0\<close> that ends every cycle, so that where register 0 already holds
  0 (every state a run reaches) an instruction that writes no register leaves all eight
  registers as they were.
\<close>

theorem add_class:
  assumes "wf_machine s" and "fetch s = Inr i" and "extract_bits i 13 15 = 0"
  shows "\<exists>s'. cycle s = Inr s' \<and> memory s' = memory s \<and>
     (let regA = unat (extract_bits i 10 12);
          regB = unat (extract_bits i 7 9);
          regDst = unat (extract_bits i 4 6);
          sub = extract_bits i 0 3;
          regs = registers s;
          a = regs ! regA;
          b = regs ! regB
      in (sub = 0 \<and> regDst \<noteq> 0 \<longrightarrow> registers s' = regs[regDst := (a + b) AND 0xFFFF, 0 := 0]) \<and>
         (sub = 1 \<and> regDst \<noteq> 0 \<longrightarrow> registers s' = regs[regDst := (a - b) AND 0xFFFF, 0 := 0]) \<and>
         (sub = 2 \<and> regDst \<noteq> 0 \<longrightarrow> registers s' = regs[regDst := (a OR b) AND 0xFFFF, 0 := 0]) \<and>
         (sub = 3 \<and> regDst \<noteq> 0 \<longrightarrow> registers s' = regs[regDst := (a AND b) AND 0xFFFF, 0 := 0]) \<and>
         (sub = 4 \<and> regDst \<noteq> 0 \<longrightarrow>
            registers s' = regs[regDst := (if unat a < unat b then 1 else 0), 0 := 0]) \<and>
         (sub = 8 \<longrightarrow> pc s' = a AND 0x1FFF \<and> registers s' = regs[0 := 0]) \<and>
         (sub \<notin> {0, 1, 2, 3, 4} \<longrightarrow> registers s' = regs[0 := 0]) \<and>
         (regDst = 0 \<longrightarrow> registers s' = regs[0 := 0]) \<and>
         (regs ! 0 = 0 \<and> (sub \<notin> {0, 1, 2, 3, 4} \<or> regDst = 0) \<longrightarrow> registers s' = regs) \<and>
         (sub \<noteq> 8 \<longrightarrow> pc s' = pc s + 1))"
proof -
  from assms(1,2) have i: "i = memory s ! (unat (pc s) mod MEM_SIZE)"
    by (simp add: fetch_eq)
  have e: "execute (registers s) (memory s) (pc s) i = exec_ADD (registers s) (memory s) (pc s) i"
    using assms(3) by (simp add: execute_def)
  obtain regs mem next_pc where
    r: "exec_ADD (registers s) (memory s) (pc s) i = Inr (regs, mem, next_pc)"
    using execute_total [OF wf_lengths [OF assms(1)], of "pc s" i] e by auto
  from cycle_eq [OF assms(1), of regs mem next_pc] e r i
  have c: "cycle s = Inr \<lparr>memory = mem, registers = regs[0 := 0], pc = next_pc,
                     halted = (unat next_pc mod MEM_SIZE = unat (pc s))\<rparr>" by simp
  have u: "(registers s)[0 := 0] = registers s" if "registers s ! 0 = 0"
    using that wf_lengths(1) [OF assms(1)] by (simp add: list_update_same_conv)
  from r show ?thesis
    unfolding c exec_ADD_eq [OF wf_lengths(1) [OF assms(1)]]
    by (auto simp: Let_def word_less_nat_alt u)
qed

text \<open>\<^verbatim>\<open>add $3, $1, $2\<close> (\<open>0x0530\<close>) with 5 and 3 in registers 1 and 2.\<close>

theorem add_class_witness:
  "wf_machine (one_instruction_machine 0x0530 [0, 5, 3, 0, 0, 0, 0, 0]) \<and>
   fetch (one_instruction_machine 0x0530 [0, 5, 3, 0, 0, 0, 0, 0]) = Inr 0x0530 \<and>
   extract_bits 0x0530 13 15 = 0 \<and>
   (\<exists>s'. cycle (one_instruction_machine 0x0530 [0, 5, 3, 0, 0, 0, 0, 0]) = Inr s' \<and>
      registers s' = [0, 5, 3, 8, 0, 0, 0, 0] \<and> pc s' = 1)"
proof -
  let ?s = "one_instruction_machine 0x0530 [0, 5, 3, 0, 0, 0, 0, 0]"
  have w: "wf_machine ?s" by (simp add: one_instruction_wf)
  have f: "fetch ?s = Inr 0x0530" by (rule one_instruction_fetch)
  have opc: "extract_bits 0x0530 13 15 = 0" by (simp add: extract_bits_def)
  from add_class [OF w f opc] show ?thesis
    using w f opc by (auto simp add: Let_def extract_bits_def one_instruction_sel)
qed

subsection \<open>Sign extension and ADDI\<close>

text \<open>
  C4.  On a 7-bit value \<^verbatim>\<open>sign_extend\<close> returns the value itself when bit 6 is clear and
  the value with bits 7 to 15 set when bit 6 is set; bit by bit, the result has the value's
  bits 0 to 6, copies of bit 6 in bits 7 to 15 and nothing above, and read as a 16-bit
  two's-complement number it is the 7-bit two's-complement number it was given.  A cycle
  whose instruction is ADDI writes (regA + sign_extend(imm)) masked to 16 bits into regDst
  unless regDst is 0; with regA = 0, register 0 holding 0 (as it does in every state a run
  reaches) and the immediate 1000000, regDst ends up holding \<open>0xFFC0\<close>.
\<close>

theorem sign_extension:
  "(v \<le> 0x7F \<longrightarrow>
      (\<not> bit v 6 \<longrightarrow> sign_extend v = v) \<and>
      (bit v 6 \<longrightarrow> sign_extend v = v OR 0xFF80) \<and>
      (\<forall>n. bit (sign_extend v) n \<longleftrightarrow> (n < 7 \<and> bit v n) \<or> (7 \<le> n \<and> n \<le> 15 \<and> bit v 6)) \<and>
      sint (ucast (sign_extend v) :: 16 word) = sint (ucast v :: 7 word)) \<and>
   (wf_machine s \<and> fetch s = Inr i \<and> extract_bits i 13 15 = 1 \<longrightarrow>
      (\<exists>s'. cycle s = Inr s' \<and>
         (let regA = unat (extract_bits i 10 12);
              regDst = unat (extract_bits i 7 9);
              imm = extract_bits i 0 6;
              regs = registers s
          in registers s' =
               (if regDst = 0 then regs
                else regs[regDst := (regs ! regA + sign_extend imm) AND 0xFFFF])[0 := 0] \<and>
             (regA = 0 \<and> regs ! 0 = 0 \<and> imm = 0x40 \<and> regDst \<noteq> 0
                \<longrightarrow> registers s' ! regDst = 0xFFC0))))"
proof (intro conjI impI)
  assume v: "v \<le> 0x7F"
  show "sign_extend v = v" if "\<not> bit v 6"
    using sign_extend_clear [OF v that] .
  show "sign_extend v = v OR 0xFF80" if "bit v 6"
    using sign_extend_set [OF v that] .
  show "\<forall>n. bit (sign_extend v) n \<longleftrightarrow> (n < 7 \<and> bit v n) \<or> (7 \<le> n \<and> n \<le> 15 \<and> bit v 6)"
    using bit_sign_extend [OF v] by blast
  show "sint (ucast (sign_extend v) :: 16 word) = sint (ucast v :: 7 word)"
    using sign_extend_sint [OF v] .
next
  assume a: "wf_machine s \<and> fetch s = Inr i \<and> extract_bits i 13 15 = 1"
  then have w: "wf_machine s" by simp
  from a fetch_eq [OF w] have i: "i = memory s ! (unat (pc s) mod MEM_SIZE)" by simp
  note l = wf_lengths [OF w]
  let ?regs' = "if unat (extract_bits i 7 9) = 0 then registers s
     else (registers s)[unat (extract_bits i 7 9) :=
       (registers s ! unat (extract_bits i 10 12) + sign_extend (extract_bits i 0 6)) AND 0xFFFF]"
  have e: "execute (registers s) (memory s) (pc s) (memory s ! (unat (pc s) mod MEM_SIZE))
      = Inr (?regs', memory s, pc s + 1)"
    using a i l by (simp add: execute_def exec_ADDI_eq Let_def)
  have se: "sign_extend 0x40 = 0xFFC0" by (simp add: sign_extend_def)
  from cycle_eq [OF w e] l field3_lt(3) [of i]
  show "\<exists>s'. cycle s = Inr s' \<and>
         (let regA = unat (extract_bits i 10 12);
              regDst = unat (extract_bits i 7 9);
              imm = extract_bits i 0 6;
              regs = registers s
          in registers s' =
               (if regDst = 0 then regs
                else regs[regDst := (regs ! regA + sign_extend imm) AND 0xFFFF])[0 := 0] \<and>
             (regA = 0 \<and> regs ! 0 = 0 \<and> imm = 0x40 \<and> regDst \<noteq> 0
                \<longrightarrow> registers s' ! regDst = 0xFFC0))"
    by (simp add: Let_def se)
qed

text \<open>\<^verbatim>\<open>addi $1, $0, -64\<close> (\<open>0x20C0\<close>) from the initial registers.\<close>

theorem sign_extension_witness:
  "(0x40 :: unsigned) \<le> 0x7F \<and> bit (0x40 :: unsigned) 6 \<and> sign_extend 0x40 = 0xFFC0 \<and>
   wf_machine (one_instruction_machine 0x20C0 [0, 0, 0, 0, 0, 0, 0, 0]) \<and>
   fetch (one_instruction_machine 0x20C0 [0, 0, 0, 0, 0, 0, 0, 0]) = Inr 0x20C0 \<and>
   extract_bits 0x20C0 13 15 = 1 \<and>
   (\<exists>s'. cycle (one_instruction_machine 0x20C0 [0, 0, 0, 0, 0, 0, 0, 0]) = Inr s' \<and>
      registers s' = [0, 0xFFC0, 0, 0, 0, 0, 0, 0])"
proof -
  let ?s = "one_instruction_machine 0x20C0 [0, 0, 0, 0, 0, 0, 0, 0]"
  have w: "wf_machine ?s" by (simp add: one_instruction_wf)
  have f: "fetch ?s = Inr 0x20C0" by (rule one_instruction_fetch)
  have opc: "extract_bits 0x20C0 13 15 = 1" by (simp add: extract_bits_def)
  have b: "(0x40 :: unsigned) \<le> 0x7F" "bit (0x40 :: unsigned) 6" by simp_all
  from sign_extension [of "0x40" ?s "0x20C0"] b have "sign_extend 0x40 = 0x40 OR (0xFF80 :: unsigned)"
    by blast
  then have se: "sign_extend 0x40 = 0xFFC0" by simp
  from sign_extension [of "0x40" ?s "0x20C0"] w f opc
  obtain s' where "cycle ?s = Inr s'"
    and "registers s' = [0, 0xFFC0, 0, 0, 0, 0, 0, 0]"
    by (auto simp add: Let_def extract_bits_def one_instruction_sel se)
  with w f opc b se show ?thesis by auto
qed

subsection \<open>The opcode field\<close>

lemma and_then_known:
  assumes "m \<noteq> Inl (Unknown_opcode opcode at_pc)"
    and "\<And>x. f x \<noteq> Inl (Unknown_opcode opcode at_pc)"
  shows "and_then m f \<noteq> Inl (Unknown_opcode opcode at_pc)"
  using assms by (cases m) (simp_all add: and_then_def)

lemma if_known:
  "(c \<Longrightarrow> a \<noteq> Inl (Unknown_opcode opcode at_pc)) \<Longrightarrow>
   (\<not> c \<Longrightarrow> b \<noteq> Inl (Unknown_opcode opcode at_pc)) \<Longrightarrow>
   (if c then a else b) \<noteq> Inl (Unknown_opcode opcode at_pc)"
  by simp

lemma prod_known:
  "(\<And>regs mem next_pc. f regs mem next_pc \<noteq> Inl (Unknown_opcode opcode at_pc)) \<Longrightarrow>
   (case x of (regs, mem, next_pc) \<Rightarrow> f regs mem next_pc) \<noteq> Inl (Unknown_opcode opcode at_pc)"
  by (cases x) auto

lemma array_known:
  "array_get a j \<noteq> Inl (Unknown_opcode opcode at_pc)"
  "array_set a j v \<noteq> Inl (Unknown_opcode opcode at_pc)"
  "Inr y \<noteq> Inl (Unknown_opcode opcode at_pc)"
  by (simp_all add: array_get_def array_set_def)

lemmas known_intros = and_then_known if_known prod_known array_known

lemma exec_known:
  "exec_ADD regs mem current_pc i \<noteq> Inl (Unknown_opcode opcode at_pc)"
  "exec_ADDI regs mem current_pc i \<noteq> Inl (Unknown_opcode opcode at_pc)"
  "exec_J regs mem current_pc i \<noteq> Inl (Unknown_opcode opcode at_pc)"
  "exec_JAL regs mem current_pc i \<noteq> Inl (Unknown_opcode opcode at_pc)"
  "exec_LW regs mem current_pc i \<noteq> Inl (Unknown_opcode opcode at_pc)"
  "exec_SW regs mem current_pc i \<noteq> Inl (Unknown_opcode opcode at_pc)"
  "exec_JEQ regs mem current_pc i \<noteq> Inl (Unknown_opcode opcode at_pc)"
  "exec_SLTI regs mem current_pc i \<noteq> Inl (Unknown_opcode opcode at_pc)"
  unfolding exec_ADD_def exec_ADDI_def exec_J_def exec_JAL_def exec_LW_def exec_SW_def
    exec_JEQ_def exec_SLTI_def Let_def
  by (intro known_intros)+

lemma execute_known:
  "execute regs mem current_pc i \<noteq> Inl (Unknown_opcode opcode at_pc)"
  by (cases i rule: opcode_cases) (simp_all add: execute_def exec_known)

lemma cycle_known: "cycle s \<noteq> Inl (Unknown_opcode opcode at_pc)"
  unfolding cycle_def fetch_def Let_def
  by (intro known_intros execute_known)

lemma run_cycles_known: "run_cycles n s \<noteq> Inl (Unknown_opcode opcode at_pc)"
proof (induction n arbitrary: s)
  case 0
  show ?case by simp
next
  case (Suc n)
  show ?case unfolding run_cycles.simps by (intro known_intros cycle_known Suc.IH)
qed

lemma load_loop_known: "load_loop f k mem \<noteq> Inl (Unknown_opcode opcode at_pc)"
proof (induction f arbitrary: k mem)
  case Nil
  show ?case by simp
next
  case (Cons line f)
  show ?case
    by (auto simp: and_then_def array_set_def Cons.IH split: option.splits)
qed

lemma load_loop_length:
  "load_loop f k mem = Inr mem' \<Longrightarrow> length mem' = length mem"
proof (induction f arbitrary: k mem)
  case Nil
  then show ?case by simp
next
  case (Cons line f)
  from Cons.prems obtain addr instr where
    "load_loop f (k + 1) (mem[addr := of_nat instr]) = Inr mem'"
    by (auto simp: and_then_def array_set_def split: option.splits if_splits)
  from Cons.IH [OF this] show ?case by simp
qed

lemma boot_wf: "boot f = Inr s \<Longrightarrow> wf_machine s"
  by (auto simp: boot_def and_then_def load_machine_code_def wf_machine_def initial_machine_def
      split: sum.splits dest: load_loop_length)

text \<open>
  C8.  The opcode, bits 13 to 15 of the fetched word, is below 8 whatever the word is, and
  the \<^verbatim>\<open>default\<close> branch of the \<^verbatim>\<open>switch\<close> is never taken: no instruction, no cycle,
  no run of any length and no program image makes the simulator report an unknown opcode.
  A run from a state whose arrays have their declared sizes, such as the state \<^verbatim>\<open>main\<close>
  builds from an accepted image, ends in no error at all.
\<close>

theorem opcode_exhaustive:
  "unat (extract_bits instruction 13 15) < 8 \<and>
   execute regs mem current_pc instruction \<noteq> Inl (Unknown_opcode opcode at_pc) \<and>
   cycle s \<noteq> Inl (Unknown_opcode opcode at_pc) \<and>
   run_cycles n s \<noteq> Inl (Unknown_opcode opcode at_pc) \<and>
   simulate n f \<noteq> Inl (Unknown_opcode opcode at_pc) \<and>
   (boot f = Inr s \<longrightarrow> (\<exists>t. simulate n f = Inr t))"
proof (intro conjI impI)
  show "simulate n f \<noteq> Inl (Unknown_opcode opcode at_pc)"
    unfolding simulate_def boot_def load_machine_code_def
    by (intro known_intros load_loop_known run_cycles_known)
  show "\<exists>t. simulate n f = Inr t" if "boot f = Inr s"
    using run_cycles_total [OF boot_wf [OF that], of n] that
    by (auto simp: simulate_def and_then_Inr)
qed (rule field3_lt execute_known cycle_known run_cycles_known)+

theorem opcode_exhaustive_witness:
  "unat (extract_bits 0xFFFF 13 15) = 7 \<and>
   boot J_self_program = Inr (one_instruction_machine 0x4000 (replicate NUM_REGS 0)) \<and>
   (\<exists>t. simulate 5 J_self_program = Inr t)"
proof -
  have "unat (extract_bits 0xFFFF 13 15) = 7" by (simp add: extract_bits_def)
  with opcode_exhaustive [of "0xFFFF" _ _ _ _ _
      "one_instruction_machine 0x4000 (replicate NUM_REGS 0)" 5 J_self_program] boot_J_self
  show ?thesis by blast
qed

subsection \<open>Memory is written by SW alone\<close>

lemma execute_memory:
  assumes "length regs = 8" "length mem = 8192"
    and "execute regs mem current_pc i = Inr (regs', mem', next_pc)"
  shows "mem' =
    (if extract_bits i 13 15 = 5
     then mem[unat ((regs ! unat (extract_bits i 10 12) + sign_extend (extract_bits i 0 6))
                 AND 0x1FFF) := regs ! unat (extract_bits i 7 9)]
     else mem)"
  using assms by (cases i rule: opcode_cases) (auto simp: execute_def exec_eqs Let_def)

text \<open>
  C9.  A cycle whose instruction has an opcode other than 5 (SW) returns the memory it was
  given.  A cycle whose instruction is SW returns that memory with one cell replaced: the
  cell at (regA + sign_extend(imm)) masked to 13 bits, an address below 8192, now holds
  regB's value; every other cell holds what it held.  The store asks nothing of the address:
  it is made whatever the address is.
\<close>

theorem memory_frame:
  assumes "wf_machine s" and "fetch s = Inr i"
  shows "\<exists>s'. cycle s = Inr s' \<and> length (memory s') = MEM_SIZE \<and>
     (extract_bits i 13 15 \<noteq> 5 \<longrightarrow> memory s' = memory s) \<and>
     (extract_bits i 13 15 = 5 \<longrightarrow>
        (let regA = unat (extract_bits i 10 12);
             regB = unat (extract_bits i 7 9);
             imm = sign_extend (extract_bits i 0 6);
             addr = unat ((registers s ! regA + imm) AND 0x1FFF)
         in addr < MEM_SIZE \<and>
            memory s' = (memory s)[addr := registers s ! regB] \<and>
            memory s' ! addr = registers s ! regB \<and>
            (\<forall>j. j \<noteq> addr \<longrightarrow> memory s' ! j = memory s ! j)))"
proof -
  from assms have i: "i = memory s ! (unat (pc s) mod MEM_SIZE)"
    by (simp add: fetch_eq)
  note l = wf_lengths [OF assms(1)]
  from execute_total [OF l, of "pc s" i]
  obtain regs mem next_pc where
    e: "execute (registers s) (memory s) (pc s) i = Inr (regs, mem, next_pc)" by blast
  note m = execute_memory [OF l e]
  from e i have e': "execute (registers s) (memory s) (pc s)
      (memory s ! (unat (pc s) mod MEM_SIZE)) = Inr (regs, mem, next_pc)" by simp
  have a: "unat ((registers s ! unat (extract_bits i 10 12) + sign_extend (extract_bits i 0 6))
      AND 0x1FFF) < 8192" by (rule addr_lt)
  from cycle_eq [OF assms(1) e'] m l a show ?thesis
    by (auto simp add: Let_def MEM_SIZE_def)
qed

text \<open>
  \<^verbatim>\<open>sw $1, 5($0)\<close> (\<open>0xA085\<close>) with 7 in register 1 stores 7 at address 5 and leaves
  the instruction at address 0 in place.
\<close>

theorem memory_frame_witness:
  "wf_machine (one_instruction_machine 0xA085 [0, 7, 0, 0, 0, 0, 0, 0]) \<and>
   fetch (one_instruction_machine 0xA085 [0, 7, 0, 0, 0, 0, 0, 0]) = Inr 0xA085 \<and>
   extract_bits 0xA085 13 15 = 5 \<and>
   (\<exists>s'. cycle (one_instruction_machine 0xA085 [0, 7, 0, 0, 0, 0, 0, 0]) = Inr s' \<and>
      memory s' = (replicate MEM_SIZE 0)[0 := 0xA085, 5 := 7])"
proof -
  let ?s = "one_instruction_machine 0xA085 [0, 7, 0, 0, 0, 0, 0, 0]"
  have w: "wf_machine ?s" by (simp add: one_instruction_wf)
  have f: "fetch ?s = Inr 0xA085" by (rule one_instruction_fetch)
  have opc: "extract_bits 0xA085 13 15 = 5" by (simp add: extract_bits_def)
  have se: "sign_extend 5 = 5" by (simp add: sign_extend_def)
  from memory_frame [OF w f] opc
  obtain s' where "cycle ?s = Inr s'"
    and "memory s' = (replicate MEM_SIZE 0)[0 := 0xA085, 5 := 7]"
    by (auto simp add: Let_def extract_bits_def one_instruction_sel se)
  with w f opc show ?thesis by auto
qed

subsection \<open>A store over the running instruction\<close>

lemma succ_mod_ne: "(Suc n) mod 8192 \<noteq> n mod 8192"
proof
  assume a: "Suc n mod 8192 = n mod 8192"
  have "Suc n mod 8192 = (if Suc (n mod 8192) = 8192 then 0 else Suc (n mod 8192))"
    by (rule mod_Suc)
  with a show False by (simp split: if_splits)
qed

lemma next_pc_differs:
  "unat ((p::unsigned) + 1) mod 8192 \<noteq> unat p mod 8192"
proof (cases "p = - 1")
  case True
  then show ?thesis by (simp add: unsigned_minus_1_eq_mask mask_eq_exp_minus_1)
next
  case False
  then have "1 + p \<noteq> 0" by (metis add.commute add_eq_0_iff2)
  then have "unat (p + 1) = Suc (unat p)" using unatSuc [of p] by (simp add: add.commute)
  then show ?thesis using succ_mod_ne [of "unat p"] by simp
qed

lemma next_pc_no_halt: "unat ((p::unsigned) + 1) mod 8192 \<noteq> unat p"
proof
  assume a: "unat (p + 1) mod 8192 = unat p"
  have "unat (p + 1) mod 8192 < 8192" by simp
  with a have "unat p mod 8192 = unat p" by simp
  with a next_pc_differs [of p] show False by simp
qed

text \<open>
  C10.  When the instruction fetched at \<^verbatim>\<open>current_pc\<close> is an SW whose effective address
  is \<^verbatim>\<open>current_pc\<close> modulo 8192, the cycle is still the cycle of that SW: the cell receives
  regB's value, the program counter becomes \<^verbatim>\<open>current_pc + 1\<close>, the machine is not
  halted, and the registers are untouched but for register 0 set to 0.  The next fetch
  reads another address, where the memory is as it was before the store: the stored word
  is not executed unless a later cycle fetches that address.
\<close>

theorem store_over_itself:
  assumes "wf_machine s" and "fetch s = Inr i" and "extract_bits i 13 15 = 5"
    and "unat ((registers s ! unat (extract_bits i 10 12) + sign_extend (extract_bits i 0 6))
           AND 0x1FFF) = unat (pc s) mod MEM_SIZE"
  shows "cycle s =
      Inr \<lparr>memory = (memory s)[unat (pc s) mod MEM_SIZE := registers s ! unat (extract_bits i 7 9)],
           registers = (registers s)[0 := 0],
           pc = pc s + 1,
           halted = False\<rparr>
    \<and> unat (pc s + 1) mod MEM_SIZE \<noteq> unat (pc s) mod MEM_SIZE
    \<and> (memory s)[unat (pc s) mod MEM_SIZE := registers s ! unat (extract_bits i 7 9)]
          ! (unat (pc s + 1) mod MEM_SIZE)
        = memory s ! (unat (pc s + 1) mod MEM_SIZE)"
proof -
  from assms have i: "i = memory s ! (unat (pc s) mod MEM_SIZE)"
    by (simp add: fetch_eq)
  note l = wf_lengths [OF assms(1)]
  have e: "execute (registers s) (memory s) (pc s) (memory s ! (unat (pc s) mod MEM_SIZE))
      = Inr (registers s,
          (memory s)[unat (pc s) mod MEM_SIZE := registers s ! unat (extract_bits i 7 9)],
          pc s + 1)"
    using assms(3,4) l i by (simp add: execute_def exec_SW_eq Let_def)
  from cycle_eq [OF assms(1) e] next_pc_no_halt [of "pc s"] next_pc_differs [of "pc s"]
  show ?thesis by (simp add: MEM_SIZE_def)
qed

text \<open>
  \<^verbatim>\<open>sw $1, 0($0)\<close> (\<open>0xA080\<close>) at address 0 with \<open>0x4000\<close> (\<^verbatim>\<open>j 0\<close>) in register 1
  overwrites itself with the jump, moves on to address 1 and does not halt.
\<close>

theorem store_over_itself_witness:
  "wf_machine (one_instruction_machine 0xA080 [0, 0x4000, 0, 0, 0, 0, 0, 0]) \<and>
   fetch (one_instruction_machine 0xA080 [0, 0x4000, 0, 0, 0, 0, 0, 0]) = Inr 0xA080 \<and>
   extract_bits 0xA080 13 15 = 5 \<and>
   cycle (one_instruction_machine 0xA080 [0, 0x4000, 0, 0, 0, 0, 0, 0]) =
     Inr \<lparr>memory = (replicate MEM_SIZE 0)[0 := 0x4000],
          registers = [0, 0x4000, 0, 0, 0, 0, 0, 0], pc = 1, halted = False\<rparr>"
proof -
  let ?s = "one_instruction_machine 0xA080 [0, 0x4000, 0, 0, 0, 0, 0, 0]"
  have w: "wf_machine ?s" by (simp add: one_instruction_wf)
  have f: "fetch ?s = Inr 0xA080" by (rule one_instruction_fetch)
  have opc: "extract_bits 0xA080 13 15 = 5" by (simp add: extract_bits_def)
  have a: "unat ((registers ?s ! unat (extract_bits 0xA080 10 12)
      + sign_extend (extract_bits 0xA080 0 6)) AND 0x1FFF) = unat (pc ?s) mod MEM_SIZE"
    by (simp add: extract_bits_def sign_extend_def one_instruction_sel)
  from store_over_itself [OF w f opc a] w f opc show ?thesis
    by (simp add: extract_bits_def one_instruction_sel)
qed

subsection \<open>The program counter\<close>

lemma execute_next_pc:
  assumes "length regs = 8" "length mem = 8192"
    and "execute regs mem current_pc i = Inr (regs', mem', next_pc)"
  shows "next_pc =
    (if extract_bits i 13 15 = 2 \<or> extract_bits i 13 15 = 3 then extract_bits i 0 12
     else if extract_bits i 13 15 = 0 \<and> extract_bits i 0 3 = 8
       then regs ! unat (extract_bits i 10 12) AND 0x1FFF
     else if extract_bits i 13 15 = 6 \<and>
         regs ! unat (extract_bits i 10 12) = regs ! unat (extract_bits i 7 9)
       then current_pc + 1 + sign_extend (extract_bits i 0 6)
     else current_pc + 1)"
  using assms by (cases i rule: opcode_cases) (auto simp: execute_def exec_eqs Let_def)

lemma boot_JEQ_self:
  "boot JEQ_self_program = Inr (one_instruction_machine 0xC07F (replicate NUM_REGS 0))"
  by (simp add: boot_def JEQ_self_program_def load_eval MEM_SIZE_def initial_machine_def
      one_instruction_machine_def)

lemma cycle_JEQ_self:
  "cycle (one_instruction_machine 0xC07F (replicate NUM_REGS 0)) =
     Inr \<lparr>memory = (replicate MEM_SIZE 0)[0 := 0xC07F], registers = replicate NUM_REGS 0,
          pc = 65536, halted = True\<rparr>"
proof -
  let ?s = "one_instruction_machine 0xC07F (replicate NUM_REGS 0)"
  have w: "wf_machine ?s" by (simp add: one_instruction_wf NUM_REGS_def)
  have e: "execute (registers ?s) (memory ?s) (pc ?s) (memory ?s ! (unat (pc ?s) mod MEM_SIZE))
      = Inr (replicate NUM_REGS 0, (replicate MEM_SIZE 0)[0 := 0xC07F], 65536)"
    by (simp add: one_instruction_sel MEM_SIZE_def NUM_REGS_def execute_def extract_bits_def
        exec_JEQ_def sign_extend_def and_then_def array_get_def)
  have r: "(replicate NUM_REGS (0::unsigned))[0 := 0] = replicate NUM_REGS 0"
    by (simp add: NUM_REGS_def eval_nat_numeral)
  from cycle_eq [OF w e] show ?thesis by (simp add: r one_instruction_sel MEM_SIZE_def)
qed

text \<open>
  C7, as the specification states it, fails.  The image whose only line is
  \<^verbatim>\<open>jeq $0, $0, -1\<close> halts after one cycle, and the program counter it ends with and
  reports is \<open>0 + 1 + 0xFFFF = 65536\<close>, which is no 16-bit value.
\<close>

theorem pc_word_counterexample:
  "simulate 1 JEQ_self_program =
     Inr \<lparr>memory = (replicate MEM_SIZE 0)[0 := 0xC07F], registers = replicate NUM_REGS 0,
          pc = 65536, halted = True\<rparr>
   \<and> \<not> pc_is_word \<lparr>memory = (replicate MEM_SIZE 0)[0 := 0xC07F],
          registers = replicate NUM_REGS 0, pc = 65536, halted = True\<rparr>"
  by (simp add: simulate_def boot_JEQ_self and_then_Inr one_instruction_sel cycle_JEQ_self
      pc_is_word_def)

text \<open>
  C7, amended.  The program counter is a 32-bit unsigned value and is committed as
  \<^verbatim>\<open>next_pc\<close> with no mask: after J and JAL it is the 13-bit immediate, after JR regA's
  value masked to 13 bits, after a taken JEQ \<^verbatim>\<open>current_pc + 1 + sign_extend(imm)\<close> and after
  anything else \<^verbatim>\<open>current_pc + 1\<close>, both computed modulo \<open>2\<^sup>3\<^sup>2\<close>.  It is below
  \<open>2\<^sup>3\<^sup>2\<close> at every point of a run.  The reduction modulo 8192 is made only in the halt
  comparison and in the next fetch.
\<close>

theorem pc_unmasked:
  assumes "wf_machine s" and "fetch s = Inr i"
  shows "\<exists>s'. cycle s = Inr s' \<and>
     pc s' =
       (if extract_bits i 13 15 = 2 \<or> extract_bits i 13 15 = 3 then extract_bits i 0 12
        else if extract_bits i 13 15 = 0 \<and> extract_bits i 0 3 = 8
          then registers s ! unat (extract_bits i 10 12) AND 0x1FFF
        else if extract_bits i 13 15 = 6 \<and>
            registers s ! unat (extract_bits i 10 12) = registers s ! unat (extract_bits i 7 9)
          then pc s + 1 + sign_extend (extract_bits i 0 6)
        else pc s + 1) \<and>
     (halted s' \<longleftrightarrow> unat (pc s') mod 8192 = unat (pc s)) \<and>
     fetch s' = Inr (memory s' ! (unat (pc s') mod 8192)) \<and>
     (\<forall>n. \<exists>t. run_cycles n s = Inr t \<and> unat (pc t) < 2 ^ 32)"
proof -
  from assms have i: "i = memory s ! (unat (pc s) mod MEM_SIZE)"
    by (simp add: fetch_eq)
  note l = wf_lengths [OF assms(1)]
  from execute_total [OF l, of "pc s" i]
  obtain regs mem next_pc where
    e: "execute (registers s) (memory s) (pc s) i = Inr (regs, mem, next_pc)" by blast
  note p = execute_next_pc [OF l e]
  from e i have e': "execute (registers s) (memory s) (pc s)
      (memory s ! (unat (pc s) mod MEM_SIZE)) = Inr (regs, mem, next_pc)" by simp
  note c = cycle_eq [OF assms(1) e']
  from cycle_total [OF assms(1)] c
  have w': "wf_machine \<lparr>memory = mem, registers = regs[0 := 0], pc = next_pc,
      halted = (unat next_pc mod MEM_SIZE = unat (pc s))\<rparr>" by simp
  have b: "unat (pc t) < 2 ^ 32" for t :: machine
    using unsigned_less [of "pc t", where 'a = nat] by simp
  have r: "\<exists>t. run_cycles n s = Inr t \<and> unat (pc t) < 2 ^ 32" for n
    using run_cycles_total [OF assms(1), of n] b by auto
  from c p fetch_eq [OF w'] r show ?thesis
    by (simp add: MEM_SIZE_def)
qed

text \<open>
  The same one-line image: the cycle commits 65536, and the halt comparison reduces it to
  0, the address just executed.
\<close>

theorem pc_unmasked_witness:
  "wf_machine (one_instruction_machine 0xC07F (replicate NUM_REGS 0)) \<and>
   fetch (one_instruction_machine 0xC07F (replicate NUM_REGS 0)) = Inr 0xC07F \<and>
   (\<exists>s'. cycle (one_instruction_machine 0xC07F (replicate NUM_REGS 0)) = Inr s' \<and>
      pc s' = 65536 \<and> halted s')"
proof -
  let ?s = "one_instruction_machine 0xC07F (replicate NUM_REGS 0)"
  have w: "wf_machine ?s" by (simp add: one_instruction_wf NUM_REGS_def)
  have f: "fetch ?s = Inr 0xC07F" by (rule one_instruction_fetch)
  from pc_unmasked [OF w f]
  obtain s' where "cycle ?s = Inr s'" and "pc s' = 65536" and "halted s'"
    by (auto simp add: extract_bits_def sign_extend_def one_instruction_sel NUM_REGS_def)
  with w f show ?thesis by auto
qed

subsection \<open>What the loader accepts\<close>

lemma load_loop_accepts:
  assumes "length mem = MEM_SIZE" "k \<le> MEM_SIZE"
  shows "(\<exists>mem'. load_loop f k mem = Inr mem') \<longleftrightarrow>
    (k + length f \<le> MEM_SIZE \<and>
     list_all (\<lambda>(j, line). line_accepted j line) (enumerate k f))"
  using assms
proof (induction f arbitrary: k mem)
  case Nil
  then show ?case by simp
next
  case (Cons line f)
  show ?case
  proof (cases "line_accepted k line \<and> k < MEM_SIZE")
    case True
    then obtain sm1 sm2 instr where
      m: "machine_code_re line = Some (sm1, sm2)" "stoi sm1 10 = Some k"
         "stoi sm2 2 = Some instr"
      by (auto simp: line_accepted_def split: option.splits)
    from True Cons.prems(1)
    have s: "load_loop (line # f) k mem = load_loop f (k + 1) (mem[k := of_nat instr])"
      by (simp add: m and_then_def array_set_def)
    from True have "k + 1 \<le> MEM_SIZE" by simp
    from Cons.IH [OF _ this, of "mem[k := of_nat instr]"] Cons.prems(1) True
    show ?thesis unfolding s by simp
  next
    case False
    then have "\<not> (\<exists>mem'. load_loop (line # f) k mem = Inr mem')"
      by (auto simp: line_accepted_def and_then_def array_set_def
          split: option.splits if_splits)
    with False Cons.prems(2) show ?thesis by auto
  qed
qed

lemma load_loop_error:
  assumes "load_loop f k mem = Inl e" "length mem = MEM_SIZE"
  shows "(\<exists>l \<in> set f. e = Invalid_line_format l \<and> machine_code_re l = None) \<or>
    (\<exists>a. e = Addresses_out_of_sequence a) \<or>
    (\<exists>a. e = Program_too_large a \<and> MEM_SIZE \<le> a) \<or>
    (\<exists>x. e = Uncaught_stoi_exception x)"
  using assms
proof (induction f arbitrary: k mem)
  case Nil
  then show ?case by simp
next
  case (Cons line f)
  show ?case
  proof (cases "\<exists>instr. load_loop f (k + 1) (mem[k := instr]) = Inl e")
    case True
    then obtain instr where "load_loop f (k + 1) (mem[k := instr]) = Inl e" by blast
    from Cons.IH [OF this] Cons.prems(2) show ?thesis by auto
  next
    case False
    then have n: "load_loop f (Suc k) (mem[k := instr]) \<noteq> Inl e" for instr by simp
    from Cons.prems show ?thesis
      by (auto simp: and_then_def array_set_def n split: option.splits if_splits)
  qed
qed

lemma load_short_literal:
  "load_machine_code short_literal_program (replicate MEM_SIZE 0)
     = Inr ((replicate MEM_SIZE 0)[0 := 1])"
  by (simp add: short_literal_program_def load_eval MEM_SIZE_def)

lemma load_gap:
  "load_machine_code gap_program (replicate MEM_SIZE 0) = Inl (Addresses_out_of_sequence 3)"
  by (simp add: gap_program_def load_eval MEM_SIZE_def)

text \<open>
  C6, as the specification states it, fails.  The loader accepts the image whose only line
  is \<^verbatim>\<open>ram[0] = 16'b1;\<close> and stores 1 at address 0, although the literal has one
  character and not sixteen.
\<close>

theorem loader_counterexample:
  "load_machine_code short_literal_program (replicate MEM_SIZE 0)
     = Inr ((replicate MEM_SIZE 0)[0 := 1])
   \<and> \<not> spec_image_ok short_literal_program"
proof -
  have "\<not> spec_image_ok short_literal_program"
    by (simp add: spec_image_ok_def spec_line_ok_def short_literal_program_def
        machine_code_re_def is_digit_def Let_def)
  with load_short_literal show ?thesis by simp
qed

lemma load_loop_skip:
  assumes "length mem = MEM_SIZE" "k + j \<le> MEM_SIZE" "j \<le> length f"
    and "\<forall>i<j. line_accepted (k + i) (f ! i)"
  shows "\<exists>mem'. length mem' = MEM_SIZE \<and> load_loop f k mem = load_loop (drop j f) (k + j) mem'"
  using assms
proof (induction j arbitrary: f k mem)
  case 0
  then show ?case by auto
next
  case (Suc j)
  from Suc.prems(3) obtain line f' where f: "f = line # f'" by (cases f) auto
  from Suc.prems(4) have "line_accepted (k + 0) (f ! 0)" by blast
  with f obtain sm1 sm2 instr where
    m: "machine_code_re line = Some (sm1, sm2)" "stoi sm1 10 = Some k"
       "stoi sm2 2 = Some instr"
    by (auto simp: line_accepted_def split: option.splits)
  from Suc.prems(1,2)
  have s: "load_loop f k mem = load_loop f' (k + 1) (mem[k := of_nat instr])"
    by (simp add: f m and_then_def array_set_def)
  have a: "\<forall>i<j. line_accepted (k + 1 + i) (f' ! i)"
  proof (intro allI impI)
    fix i assume "i < j"
    then have "Suc i < Suc j" by simp
    with Suc.prems(4) have "line_accepted (k + Suc i) (f ! Suc i)" by blast
    then show "line_accepted (k + 1 + i) (f' ! i)" by (simp add: f)
  qed
  from Suc.IH [of "mem[k := of_nat instr]" "k + 1" f', OF _ _ _ a] Suc.prems(1,2,3)
  show ?case unfolding s by (simp add: f)
qed

text \<open>What the loop does with a line, one case for each way through its body.\<close>

lemma load_loop_line:
  "machine_code_re line = None \<Longrightarrow>
     load_loop (line # f) k mem = Inl (Invalid_line_format line)"
  "machine_code_re line = Some (sm1, sm2) \<Longrightarrow> stoi sm1 10 = None \<Longrightarrow>
     load_loop (line # f) k mem = Inl (Uncaught_stoi_exception sm1)"
  "machine_code_re line = Some (sm1, sm2) \<Longrightarrow> stoi sm1 10 = Some a \<Longrightarrow> stoi sm2 2 = None \<Longrightarrow>
     load_loop (line # f) k mem = Inl (Uncaught_stoi_exception sm2)"
  "machine_code_re line = Some (sm1, sm2) \<Longrightarrow> stoi sm1 10 = Some a \<Longrightarrow> stoi sm2 2 = Some v \<Longrightarrow>
     a \<noteq> k \<Longrightarrow> load_loop (line # f) k mem = Inl (Addresses_out_of_sequence a)"
  "machine_code_re line = Some (sm1, sm2) \<Longrightarrow> stoi sm1 10 = Some k \<Longrightarrow> stoi sm2 2 = Some v \<Longrightarrow>
     MEM_SIZE \<le> k \<Longrightarrow> load_loop (line # f) k mem = Inl (Program_too_large k)"
  by simp_all

lemma load_first_failure:
  assumes "k < length f" "k \<le> MEM_SIZE" "\<forall>j<k. line_accepted j (f ! j)"
  shows "\<exists>mem. load_machine_code f (replicate MEM_SIZE 0)
      = load_loop (f ! k # drop (Suc k) f) k mem"
proof -
  from load_loop_skip [of "replicate MEM_SIZE 0" 0 k f] assms
  obtain mem where "load_loop f 0 (replicate MEM_SIZE 0) = load_loop (drop k f) k mem"
    by auto
  with assms(1) show ?thesis
    by (auto simp: load_machine_code_def Cons_nth_drop_Suc)
qed

text \<open>
  C6, amended.  The loader accepts exactly the images of at most 8192 lines in which the
  line at each position \<open>k\<close> (from 0) matches the pattern, has address digits that
  \<^verbatim>\<open>stoi\<close> reads as \<open>k\<close> in base 10, and has a literal that \<^verbatim>\<open>stoi\<close> converts in base 2:
  the literal's leading run of binary digits is not empty and its value is at most
  \<open>2\<^sup>3\<^sup>1 - 1\<close>.  The literal may have any length.  An image that is not accepted runs
  no cycle, whatever the number of cycles asked for.  Loading stops at the first line that
  is not accepted, the line at position \<open>k\<close> when all lines before it are accepted:
  \<^item> if that line does not match the pattern, the loader reports the line and the process
    ends with status 1;
  \<^item> if it matches, \<^verbatim>\<open>stoi\<close> converts both its runs of digits and its address is not
    \<open>k\<close>, the loader reports the address as out of sequence and the process ends with
    status 1;
  \<^item> if it matches, \<^verbatim>\<open>stoi\<close> converts both runs, its address is \<open>k\<close> and \<open>k\<close> is
    8192, the loader reports the program as too large and the process ends with status 1;
  \<^item> if it matches and \<^verbatim>\<open>stoi\<close> throws on the address or on the literal, the exception
    is caught nowhere and the process has no exit status of its own.
\<close>

theorem loader_acceptance:
  "((\<exists>mem. load_machine_code f (replicate MEM_SIZE 0) = Inr mem) \<longleftrightarrow> image_accepted f) \<and>
   (load_machine_code f (replicate MEM_SIZE 0) = Inl e \<longrightarrow>
      (\<forall>n. simulate n f = Inl e) \<and>
      ((\<exists>l \<in> set f. e = Invalid_line_format l \<and> machine_code_re l = None) \<or>
       (\<exists>a. e = Addresses_out_of_sequence a) \<or>
       (\<exists>a. e = Program_too_large a \<and> MEM_SIZE \<le> a) \<or>
       (\<exists>x. e = Uncaught_stoi_exception x)) \<and>
      (exit_status e = Some 1 \<or> (\<exists>x. e = Uncaught_stoi_exception x))) \<and>
   (k < length f \<and> k \<le> MEM_SIZE \<and> (\<forall>j<k. line_accepted j (f ! j)) \<longrightarrow>
      (machine_code_re (f ! k) = None \<longrightarrow>
         load_machine_code f (replicate MEM_SIZE 0) = Inl (Invalid_line_format (f ! k)) \<and>
         exit_status (Invalid_line_format (f ! k)) = Some 1) \<and>
      (\<forall>sm1 sm2 a v.
         machine_code_re (f ! k) = Some (sm1, sm2) \<and> stoi sm1 10 = Some a \<and>
         stoi sm2 2 = Some v \<and> a \<noteq> k \<longrightarrow>
         load_machine_code f (replicate MEM_SIZE 0) = Inl (Addresses_out_of_sequence a) \<and>
         exit_status (Addresses_out_of_sequence a) = Some 1) \<and>
      (\<forall>sm1 sm2 v.
         machine_code_re (f ! k) = Some (sm1, sm2) \<and> stoi sm1 10 = Some k \<and>
         stoi sm2 2 = Some v \<and> MEM_SIZE \<le> k \<longrightarrow>
         load_machine_code f (replicate MEM_SIZE 0) = Inl (Program_too_large k) \<and>
         exit_status (Program_too_large k) = Some 1) \<and>
      (\<forall>sm1 sm2.
         machine_code_re (f ! k) = Some (sm1, sm2) \<and> stoi sm1 10 = None \<longrightarrow>
         load_machine_code f (replicate MEM_SIZE 0) = Inl (Uncaught_stoi_exception sm1) \<and>
         exit_status (Uncaught_stoi_exception sm1) = None) \<and>
      (\<forall>sm1 sm2 a.
         machine_code_re (f ! k) = Some (sm1, sm2) \<and> stoi sm1 10 = Some a \<and>
         stoi sm2 2 = None \<longrightarrow>
         load_machine_code f (replicate MEM_SIZE 0) = Inl (Uncaught_stoi_exception sm2) \<and>
         exit_status (Uncaught_stoi_exception sm2) = None))"
proof (intro conjI)
  show "(\<exists>mem. load_machine_code f (replicate MEM_SIZE 0) = Inr mem) \<longleftrightarrow> image_accepted f"
    using load_loop_accepts [of "replicate MEM_SIZE 0" 0 f]
    by (simp add: load_machine_code_def image_accepted_def)
next
  show "load_machine_code f (replicate MEM_SIZE 0) = Inl e \<longrightarrow>
      (\<forall>n. simulate n f = Inl e) \<and>
      ((\<exists>l \<in> set f. e = Invalid_line_format l \<and> machine_code_re l = None) \<or>
       (\<exists>a. e = Addresses_out_of_sequence a) \<or>
       (\<exists>a. e = Program_too_large a \<and> MEM_SIZE \<le> a) \<or>
       (\<exists>x. e = Uncaught_stoi_exception x)) \<and>
      (exit_status e = Some 1 \<or> (\<exists>x. e = Uncaught_stoi_exception x))"
  proof (intro impI conjI)
    assume a: "load_machine_code f (replicate MEM_SIZE 0) = Inl e"
    then show "\<forall>n. simulate n f = Inl e"
      by (simp add: simulate_def boot_def and_then_Inl)
    from a load_loop_error [of f 0 "replicate MEM_SIZE 0" e]
    show d: "(\<exists>l \<in> set f. e = Invalid_line_format l \<and> machine_code_re l = None) \<or>
         (\<exists>a. e = Addresses_out_of_sequence a) \<or>
         (\<exists>a. e = Program_too_large a \<and> MEM_SIZE \<le> a) \<or>
         (\<exists>x. e = Uncaught_stoi_exception x)"
      by (simp add: load_machine_code_def)
    then show "exit_status e = Some 1 \<or> (\<exists>x. e = Uncaught_stoi_exception x)"
      by auto
  qed
next
  show "k < length f \<and> k \<le> MEM_SIZE \<and> (\<forall>j<k. line_accepted j (f ! j)) \<longrightarrow>
      (machine_code_re (f ! k) = None \<longrightarrow>
         load_machine_code f (replicate MEM_SIZE 0) = Inl (Invalid_line_format (f ! k)) \<and>
         exit_status (Invalid_line_format (f ! k)) = Some 1) \<and>
      (\<forall>sm1 sm2 a v.
         machine_code_re (f ! k) = Some (sm1, sm2) \<and> stoi sm1 10 = Some a \<and>
         stoi sm2 2 = Some v \<and> a \<noteq> k \<longrightarrow>
         load_machine_code f (replicate MEM_SIZE 0) = Inl (Addresses_out_of_sequence a) \<and>
         exit_status (Addresses_out_of_sequence a) = Some 1) \<and>
      (\<forall>sm1 sm2 v.
         machine_code_re (f ! k) = Some (sm1, sm2) \<and> stoi sm1 10 = Some k \<and>
         stoi sm2 2 = Some v \<and> MEM_SIZE \<le> k \<longrightarrow>
         load_machine_code f (replicate MEM_SIZE 0) = Inl (Program_too_large k) \<and>
         exit_status (Program_too_large k) = Some 1) \<and>
      (\<forall>sm1 sm2.
         machine_code_re (f ! k) = Some (sm1, sm2) \<and> stoi sm1 10 = None \<longrightarrow>
         load_machine_code f (replicate MEM_SIZE 0) = Inl (Uncaught_stoi_exception sm1) \<and>
         exit_status (Uncaught_stoi_exception sm1) = None) \<and>
      (\<forall>sm1 sm2 a.
         machine_code_re (f ! k) = Some (sm1, sm2) \<and> stoi sm1 10 = Some a \<and>
         stoi sm2 2 = None \<longrightarrow>
         load_machine_code f (replicate MEM_SIZE 0) = Inl (Uncaught_stoi_exception sm2) \<and>
         exit_status (Uncaught_stoi_exception sm2) = None)"
  proof
    assume "k < length f \<and> k \<le> MEM_SIZE \<and> (\<forall>j<k. line_accepted j (f ! j))"
    then obtain mem where
      l: "load_machine_code f (replicate MEM_SIZE 0)
          = load_loop (f ! k # drop (Suc k) f) k mem"
      using load_first_failure [of k f] by blast
    show "(machine_code_re (f ! k) = None \<longrightarrow>
         load_machine_code f (replicate MEM_SIZE 0) = Inl (Invalid_line_format (f ! k)) \<and>
         exit_status (Invalid_line_format (f ! k)) = Some 1) \<and>
      (\<forall>sm1 sm2 a v.
         machine_code_re (f ! k) = Some (sm1, sm2) \<and> stoi sm1 10 = Some a \<and>
         stoi sm2 2 = Some v \<and> a \<noteq> k \<longrightarrow>
         load_machine_code f (replicate MEM_SIZE 0) = Inl (Addresses_out_of_sequence a) \<and>
         exit_status (Addresses_out_of_sequence a) = Some 1) \<and>
      (\<forall>sm1 sm2 v.
         machine_code_re (f ! k) = Some (sm1, sm2) \<and> stoi sm1 10 = Some k \<and>
         stoi sm2 2 = Some v \<and> MEM_SIZE \<le> k \<longrightarrow>
         load_machine_code f (replicate MEM_SIZE 0) = Inl (Program_too_large k) \<and>
         exit_status (Program_too_large k) = Some 1) \<and>
      (\<forall>sm1 sm2.
         machine_code_re (f ! k) = Some (sm1, sm2) \<and> stoi sm1 10 = None \<longrightarrow>
         load_machine_code f (replicate MEM_SIZE 0) = Inl (Uncaught_stoi_exception sm1) \<and>
         exit_status (Uncaught_stoi_exception sm1) = None) \<and>
      (\<forall>sm1 sm2 a.
         machine_code_re (f ! k) = Some (sm1, sm2) \<and> stoi sm1 10 = Some a \<and>
         stoi sm2 2 = None \<longrightarrow>
         load_machine_code f (replicate MEM_SIZE 0) = Inl (Uncaught_stoi_exception sm2) \<and>
         exit_status (Uncaught_stoi_exception sm2) = None)"
      unfolding l by (auto simp: load_loop_line)
  qed
qed

text \<open>
  The image with addresses 0, 1 and 3: its first two lines are accepted, its third matches
  the pattern and converts, with address 3 at position 2, so the loader reports address 3
  as out of sequence, the process ends with status 1 and nothing runs.  A line without
  the \<^verbatim>\<open>16'b\<close> prefix fails the pattern and is reported as such.
\<close>

theorem loader_acceptance_witness:
  "(2::nat) < length gap_program \<and> (2::nat) \<le> MEM_SIZE \<and>
   line_accepted 0 (gap_program ! 0) \<and> line_accepted 1 (gap_program ! 1) \<and>
   machine_code_re (gap_program ! 2) = Some (''3'', ''0100000000000011'') \<and>
   stoi ''3'' 10 = Some 3 \<and> stoi ''0100000000000011'' 2 = Some 16387 \<and>
   load_machine_code gap_program (replicate MEM_SIZE 0) = Inl (Addresses_out_of_sequence 3) \<and>
   exit_status (Addresses_out_of_sequence 3) = Some 1 \<and>
   \<not> image_accepted gap_program \<and>
   simulate 7 gap_program = Inl (Addresses_out_of_sequence 3) \<and>
   machine_code_re ''ram[0] = 0;'' = None \<and>
   load_machine_code [''ram[0] = 0;''] (replicate MEM_SIZE 0)
     = Inl (Invalid_line_format ''ram[0] = 0;'')"
proof -
  have l: "(2::nat) < length gap_program" "(2::nat) \<le> MEM_SIZE"
    by (simp_all add: gap_program_def MEM_SIZE_def)
  have a0: "line_accepted 0 (gap_program ! 0)"
    by (simp add: gap_program_def line_accepted_def machine_code_re_def stoi_def is_digit_def
        digit_val_def INT_MAX_def Let_def)
  have a1: "line_accepted 1 (gap_program ! 1)"
    by (simp add: gap_program_def line_accepted_def machine_code_re_def stoi_def is_digit_def
        digit_val_def INT_MAX_def Let_def)
  have a: "\<forall>j<2. line_accepted j (gap_program ! j)"
  proof (intro allI impI)
    fix j :: nat assume "j < 2"
    then have "j = 0 \<or> j = 1" by auto
    with a0 a1 show "line_accepted j (gap_program ! j)" by auto
  qed
  have m: "machine_code_re (gap_program ! 2) = Some (''3'', ''0100000000000011'')"
    by (simp add: gap_program_def machine_code_re_def is_digit_def Let_def)
  have s: "stoi ''3'' 10 = Some 3" "stoi ''0100000000000011'' 2 = Some 16387"
    by (simp_all add: stoi_def is_digit_def digit_val_def INT_MAX_def Let_def)
  from loader_acceptance [of gap_program "Addresses_out_of_sequence 3" 2] l a m s
  have r: "load_machine_code gap_program (replicate MEM_SIZE 0)
      = Inl (Addresses_out_of_sequence 3)"
    and x: "exit_status (Addresses_out_of_sequence 3) = Some 1"
    by auto
  from loader_acceptance [of gap_program "Addresses_out_of_sequence 3" 2] r
  have "\<not> image_accepted gap_program"
    "simulate 7 gap_program = Inl (Addresses_out_of_sequence 3)"
    by auto
  have p: "machine_code_re ''ram[0] = 0;'' = None"
    by (simp add: machine_code_re_def is_digit_def Let_def)
  from loader_acceptance [of "[''ram[0] = 0;'']" _ 0] p
  have q: "load_machine_code [''ram[0] = 0;''] (replicate MEM_SIZE 0)
      = Inl (Invalid_line_format ''ram[0] = 0;'')"
    by simp
  from l a0 a1 m s r x p q
    \<open>\<not> image_accepted gap_program\<close>
    \<open>simulate 7 gap_program = Inl (Addresses_out_of_sequence 3)\<close>
  show ?thesis by simp
qed

subsection \<open>Sixteen-bit values and thirteen-bit addresses\<close>

lemma all_words16_update:
  "all_words16 xs \<Longrightarrow> unat v \<le> 65535 \<Longrightarrow> all_words16 (xs[j := v])"
  unfolding all_words16_def list_all_iff
  using set_update_subset_insert [of xs j v] by auto

lemma all_words16_nth:
  "all_words16 xs \<Longrightarrow> j < length xs \<Longrightarrow> unat (xs ! j) \<le> 65535"
  by (simp add: all_words16_def list_all_length)

lemma all_words16_replicate: "all_words16 (replicate n 0)"
  by (simp add: all_words16_def list_all_iff)

lemma mem_word16:
  "all_words16 mem \<Longrightarrow> length mem = 8192 \<Longrightarrow> unat (mem ! unat ((a::unsigned) AND 0x1FFF)) \<le> 65535"
  using all_words16_nth [of mem "unat (a AND 0x1FFF)"] addr_lt [of a] by simp

lemma reg_word16:
  "all_words16 regs \<Longrightarrow> length regs = 8 \<Longrightarrow> unat (regs ! unat (extract_bits i 7 9)) \<le> 65535"
  using all_words16_nth [of regs "unat (extract_bits i 7 9)"] field3_lt(3) [of i] by simp

lemma execute_words16:
  assumes "length regs = 8" "length mem = 8192"
    and "all_words16 regs" "all_words16 mem"
    and "execute regs mem current_pc i = Inr (regs', mem', next_pc)"
  shows "all_words16 regs' \<and> all_words16 mem'"
  using assms
  by (cases i rule: opcode_cases)
    (auto simp: execute_def exec_eqs Let_def mask16_le mem_word16 reg_word16
      intro!: all_words16_update)

lemma cycle_words16:
  assumes "wf_machine s" "all_words16 (registers s)" "all_words16 (memory s)"
    and "cycle s = Inr s'"
  shows "all_words16 (registers s') \<and> all_words16 (memory s')"
proof -
  let ?i = "memory s ! (unat (pc s) mod MEM_SIZE)"
  note l = wf_lengths [OF assms(1)]
  from execute_total [OF l, of "pc s" ?i]
  obtain regs mem next_pc where
    e: "execute (registers s) (memory s) (pc s) ?i = Inr (regs, mem, next_pc)" by blast
  from execute_words16 [OF l assms(2,3) e]
  have "all_words16 (regs[0 := 0])" "all_words16 mem"
    by (simp_all add: all_words16_update)
  with cycle_eq [OF assms(1) e] assms(4) show ?thesis by auto
qed

lemma run_cycles_words16:
  "wf_machine s \<Longrightarrow> all_words16 (registers s) \<Longrightarrow> all_words16 (memory s) \<Longrightarrow>
   run_cycles n s = Inr t \<Longrightarrow> all_words16 (registers t) \<and> all_words16 (memory t)"
proof (induction n arbitrary: s)
  case 0
  then show ?case by simp
next
  case (Suc n)
  from cycle_total [OF Suc.prems(1)] obtain s' where c: "cycle s = Inr s'" "wf_machine s'"
    by blast
  show ?case
  proof (cases "halted s")
    case True
    with Suc.prems show ?thesis by simp
  next
    case False
    with Suc.prems(4) c have r: "run_cycles n s' = Inr t" by (simp add: and_then_Inr)
    from cycle_words16 [OF Suc.prems(1-3) c(1)]
    have "all_words16 (registers s')" "all_words16 (memory s')" by simp_all
    from Suc.IH [OF c(2) this r] show ?thesis .
  qed
qed

lemma load_loop_words16:
  "all_words16 mem \<Longrightarrow> list_all literal_fits_word f \<Longrightarrow> load_loop f k mem = Inr mem' \<Longrightarrow>
   all_words16 mem'"
proof (induction f arbitrary: k mem)
  case Nil
  then show ?case by simp
next
  case (Cons line f)
  from Cons.prems(2,3) obtain addr instr where
    r: "load_loop f (k + 1) (mem[addr := of_nat instr]) = Inr mem'" and b: "instr \<le> 65535"
    by (auto simp: and_then_def array_set_def literal_fits_word_def
        split: option.splits if_splits)
  from b have "unat (of_nat instr :: unsigned) = instr"
    by (simp add: unat_of_nat)
  with b have "all_words16 (mem[addr := of_nat instr])"
    using all_words16_update [OF Cons.prems(1)] by simp
  from Cons.IH [OF this _ r] Cons.prems(2) show ?case by simp
qed

lemma boot_words16:
  assumes "boot f = Inr s" "list_all literal_fits_word f"
  shows "all_words16 (registers s) \<and> all_words16 (memory s)"
proof -
  from assms(1) obtain mem where
    m: "load_loop f 0 (replicate MEM_SIZE 0) = Inr mem" and s: "s = initial_machine mem"
    by (auto simp: boot_def and_then_def load_machine_code_def split: sum.splits)
  from load_loop_words16 [OF all_words16_replicate assms(2) m] s show ?thesis
    by (simp add: initial_machine_def all_words16_replicate)
qed

lemma foldl_binary_bound:
  "\<forall>c \<in> set ds. digit_val c < 2 \<Longrightarrow>
   foldl (\<lambda>acc c. acc * 2 + digit_val c) a ds < (a + 1) * 2 ^ length ds"
proof (induction ds arbitrary: a)
  case Nil
  then show ?case by simp
next
  case (Cons c ds)
  then have d: "digit_val c < 2" and r: "\<forall>c \<in> set ds. digit_val c < 2" by simp_all
  from Cons.IH [OF r, of "a * 2 + digit_val c"]
  have "foldl (\<lambda>acc c. acc * 2 + digit_val c) (a * 2 + digit_val c) ds
      < (a * 2 + digit_val c + 1) * 2 ^ length ds" .
  also from d have "(a * 2 + digit_val c + 1) * 2 ^ length ds \<le> (a * 2 + 2) * 2 ^ length ds"
    by (intro mult_le_mono1) simp
  also have "\<dots> = (a + 1) * 2 ^ length (c # ds)" by simp
  finally show ?case by simp
qed

lemma stoi_binary_bound:
  assumes "stoi str 2 = Some v"
  shows "v < 2 ^ length str"
proof -
  let ?ds = "takeWhile (\<lambda>c. is_digit c \<and> digit_val c < 2) str"
  from assms have v: "v = foldl (\<lambda>acc c. acc * 2 + digit_val c) 0 ?ds"
    by (simp add: stoi_def Let_def split: if_splits)
  have "\<forall>c \<in> set ?ds. digit_val c < 2" by (auto dest: set_takeWhileD)
  from foldl_binary_bound [OF this, of 0] v have "v < 2 ^ length ?ds" by simp
  also have "(2::nat) ^ length ?ds \<le> 2 ^ length str"
    by (intro power_increasing length_takeWhile_le) simp
  finally show ?thesis .
qed

lemma short_literal_fits:
  assumes "literal_short line" "line_accepted k line"
  shows "literal_fits_word line"
proof -
  from assms obtain sm1 sm2 v where
    m: "machine_code_re line = Some (sm1, sm2)" and l: "length sm2 \<le> 16"
    and v: "stoi sm2 2 = Some v"
    by (auto simp: literal_short_def line_accepted_def split: option.splits)
  from stoi_binary_bound [OF v] have "v < 2 ^ length sm2" .
  also from l have "(2::nat) ^ length sm2 \<le> 2 ^ 16" by (intro power_increasing) simp_all
  finally have "v \<le> 65535" by simp
  with m v show ?thesis by (simp add: literal_fits_word_def)
qed

lemma accepted_short_fits:
  assumes "image_accepted f" "list_all literal_short f"
  shows "list_all literal_fits_word f"
  unfolding list_all_length
proof (intro allI impI)
  fix j assume j: "j < length f"
  with assms(1) have "line_accepted j (f ! j)"
    by (auto simp: image_accepted_def list_all_length nth_enumerate_eq)
  moreover from j assms(2) have "literal_short (f ! j)" by (simp add: list_all_length)
  ultimately show "literal_fits_word (f ! j)" by (rule short_literal_fits [rotated])
qed

lemma boot_accepted: "boot f = Inr s \<Longrightarrow> image_accepted f"
  using load_loop_accepts [of "replicate MEM_SIZE 0" 0 f]
  by (auto simp: boot_def and_then_def load_machine_code_def image_accepted_def
      split: sum.splits)

lemma boot_wide_literal:
  "boot wide_literal_program = Inr (one_instruction_machine 0x1FFFF (replicate NUM_REGS 0))"
  by (simp add: boot_def wide_literal_program_def load_eval MEM_SIZE_def initial_machine_def
      one_instruction_machine_def)

text \<open>
  C5, as the specification states it, fails.  The loader accepts the image whose only line
  carries a literal of seventeen ones, and the memory the simulation starts from holds
  131071 at address 0.
\<close>

theorem word_range_counterexample:
  "boot wide_literal_program = Inr (one_instruction_machine 0x1FFFF (replicate NUM_REGS 0))
   \<and> \<not> all_words16 (memory (one_instruction_machine 0x1FFFF (replicate NUM_REGS 0)))"
proof -
  have "\<not> unat (memory (one_instruction_machine 0x1FFFF (replicate NUM_REGS 0)) ! 0) \<le> 65535"
    by (simp add: one_instruction_sel MEM_SIZE_def)
  then have "\<not> all_words16 (memory (one_instruction_machine 0x1FFFF (replicate NUM_REGS 0)))"
    unfolding all_words16_def list_all_length
    by (auto simp add: one_instruction_sel MEM_SIZE_def intro!: exI [of _ 0])
  with boot_wide_literal show ?thesis by simp
qed

text \<open>
  C5, amended.  From every image the loader accepts, a run of any length ends in no error:
  the arrays keep their sizes and no fetch, load or store used an index outside the memory
  (the fetch index is the program counter modulo 8192, the load and store index a sum
  masked to 13 bits).  When moreover every literal of the image converts to a value of at
  most 65535, as every literal of at most sixteen characters does, every register and every
  memory cell holds a value in 0..65535 at every point of the run.
\<close>

theorem word_and_address_ranges:
  assumes "boot f = Inr s0"
  shows "\<exists>t. run_cycles n s0 = Inr t \<and>
      length (memory t) = MEM_SIZE \<and> length (registers t) = NUM_REGS \<and>
      (list_all literal_fits_word f \<or> list_all literal_short f \<longrightarrow>
         all_words16 (registers t) \<and> all_words16 (memory t))"
proof -
  note w = boot_wf [OF assms]
  from run_cycles_total [OF w, of n] obtain t where
    t: "run_cycles n s0 = Inr t" and wt: "wf_machine t" by blast
  have "all_words16 (registers t) \<and> all_words16 (memory t)"
    if "list_all literal_fits_word f \<or> list_all literal_short f"
  proof -
    from that accepted_short_fits [OF boot_accepted [OF assms]]
    have "list_all literal_fits_word f" by blast
    from boot_words16 [OF assms this]
    have "all_words16 (registers s0)" "all_words16 (memory s0)" by simp_all
    from run_cycles_words16 [OF w this t] show ?thesis .
  qed
  with t wt show ?thesis by (auto simp: wf_machine_def)
qed

theorem word_and_address_ranges_witness:
  "boot J_self_program = Inr (one_instruction_machine 0x4000 (replicate NUM_REGS 0)) \<and>
   list_all literal_short J_self_program \<and>
   (\<exists>t. run_cycles 1 (one_instruction_machine 0x4000 (replicate NUM_REGS 0)) = Inr t \<and>
      all_words16 (registers t) \<and> all_words16 (memory t))"
proof -
  have l: "list_all literal_short J_self_program"
    by (simp add: J_self_program_def literal_short_def machine_code_re_def is_digit_def Let_def)
  from word_and_address_ranges [OF boot_J_self, of 1] l boot_J_self show ?thesis by auto
qed



end
